theory Spec2Isabelle
  imports Complex_Main
begin

section \<open>Numbers and faults\<close>

text \<open>
  The sources compute with C++ \<open>double\<close>. The model computes with the reals, which is
  what the formulas of the sources mean up to rounding. Real arithmetic has no value for
  a quotient by zero or for the logarithm of a number that is not positive (a \<open>double\<close>
  becomes an infinity or a not-a-number there, and HOL would silently return a default),
  so every such operation of the sources is guarded in the model and reported as the
  fault \<open>NonFinite\<close>. The other faults are the null pointer that is dereferenced, the
  assertion that fails and the vector that is read past its end.
\<close>

datatype fault = NonFinite | NullPointer | AssertionFailed | OutOfRange

section \<open>Interactions\<close>

text \<open>
  \<open>Interaction\<close>, \<open>InitialState\<close>, \<open>Target\<close> and \<open>Kinematics\<close> are declared
  outside the source files at hand. The records hold what the sources read from them:
  \<open>GetTarget().Z()\<close>, \<open>GetProbeE(kRfLab)\<close>, \<open>GetKinematics().y()\<close> and \<open>TestBit\<close>.
\<close>

record Target =
  Z :: int

record InitialState =
  GetTarget :: Target
  GetProbeE :: real

datatype InteractionBit = kISkipProcessChk | kISkipKinematicChk | kIAssumeFreeNucleon

record Interaction =
  GetInitialState :: InitialState
  GetKinematics_y :: real
  fBits :: "InteractionBit set"

definition TestBit :: "Interaction \<Rightarrow> InteractionBit \<Rightarrow> bool" where
  "TestBit interaction b = (b \<in> fBits interaction)"

section \<open>The event record\<close>

text \<open>
  \<open>GHepStatus_t\<close> is an enumeration declared in GHEP/GHepStatus.h, which is not at
  hand. The sources name two of its values; \<open>kIStOther\<close> stands for every other one.
\<close>

datatype GHepStatus_t = kIStStableFinalState | kIstNucleonTarget | kIStOther nat

text \<open>ROOT's four-vector: three space components and the energy (or time).\<close>

record TLorentzVector =
  fX :: real
  fY :: real
  fZ :: real
  fE :: real

text \<open>\<open>TLorentzVector::P()\<close>, the magnitude of the space part.\<close>

definition P :: "TLorentzVector \<Rightarrow> real" where
  "P v = sqrt (fX v * fX v + fY v * fY v + fZ v * fZ v)"

text \<open>\<open>TLorentzVector::Mag2()\<close>, the invariant mass squared.\<close>

definition Mag2 :: "TLorentzVector \<Rightarrow> real" where
  "Mag2 v = fE v * fE v - (fX v * fX v + fY v * fY v + fZ v * fZ v)"

record GHepParticle =
  PdgCode :: int
  Status :: GHepStatus_t
  FirstMother :: int
  LastMother :: int
  FirstDaughter :: int
  LastDaughter :: int
  P4 :: TLorentzVector
  V4 :: TLorentzVector

definition Px :: "GHepParticle \<Rightarrow> real" where "Px p = fX (P4 p)"

definition Py :: "GHepParticle \<Rightarrow> real" where "Py p = fY (P4 p)"

definition Pz :: "GHepParticle \<Rightarrow> real" where "Pz p = fZ (P4 p)"

definition Energy :: "GHepParticle \<Rightarrow> real" where "Energy p = fE (P4 p)"

definition SetPx :: "real \<Rightarrow> GHepParticle \<Rightarrow> GHepParticle" where
  "SetPx v p = p\<lparr>P4 := (P4 p)\<lparr>fX := v\<rparr>\<rparr>"

definition SetPy :: "real \<Rightarrow> GHepParticle \<Rightarrow> GHepParticle" where
  "SetPy v p = p\<lparr>P4 := (P4 p)\<lparr>fY := v\<rparr>\<rparr>"

definition SetPz :: "real \<Rightarrow> GHepParticle \<Rightarrow> GHepParticle" where
  "SetPz v p = p\<lparr>P4 := (P4 p)\<lparr>fZ := v\<rparr>\<rparr>"

definition SetEnergy :: "real \<Rightarrow> GHepParticle \<Rightarrow> GHepParticle" where
  "SetEnergy v p = p\<lparr>P4 := (P4 p)\<lparr>fE := v\<rparr>\<rparr>"

text \<open>
  The event record is a \<open>TClonesArray\<close> of particles together with the interaction
  it was generated for.
\<close>

record GHepRecord =
  GetInteraction :: Interaction
  particles :: "GHepParticle list"

text \<open>
  Modelled from the spec: \<open>GHepRecord::Particle\<close> is not at hand. The spec takes the
  record as an indexed sequence in which a position is valid when it is at least 0 and
  below the length; any other position gives the null pointer, here \<open>None\<close>.
\<close>

definition Particle :: "GHepRecord \<Rightarrow> int \<Rightarrow> GHepParticle option" where
  "Particle event_rec pos =
     (if 0 \<le> pos \<and> pos < int (length (particles event_rec))
      then Some (particles event_rec ! nat pos) else None)"

text \<open>
  Modelled from the spec: \<open>GHepRecord::AddParticle\<close> is not at hand. It appends one
  particle built from the PDG code, the status, the two mother and the two daughter
  positions and the two four-vectors.
\<close>

definition AddParticle ::
  "int \<Rightarrow> GHepStatus_t \<Rightarrow> int \<Rightarrow> int \<Rightarrow> int \<Rightarrow> int \<Rightarrow> TLorentzVector \<Rightarrow> TLorentzVector
     \<Rightarrow> GHepRecord \<Rightarrow> GHepRecord" where
  "AddParticle pdgc ist mom1 mom2 dau1 dau2 p4 v4 event_rec =
     event_rec\<lparr>particles := particles event_rec @
       [\<lparr>PdgCode = pdgc, Status = ist, FirstMother = mom1, LastMother = mom2,
         FirstDaughter = dau1, LastDaughter = dau2, P4 = p4, V4 = v4\<rparr>]\<rparr>"

section \<open>NucBindEnergyAggregator\<close>

text \<open>
  What the aggregator takes from the PDG library and the nuclear utilities, none of
  which is at hand, is a parameter of the model: the two PDG predicates, the PDG code
  of the bindino, the mass table behind \<open>GHepParticle::Mass()\<close> and the binding energy
  of the last nucleon of a target.
\<close>

record NuclearLib =
  IsNeutronOrProton :: "int \<Rightarrow> bool"
  IsIon :: "int \<Rightarrow> bool"
  kPdgBindino :: int
  PdgMass :: "int \<Rightarrow> real"
  BindEnergyLastNucleon :: "Target \<Rightarrow> real"

definition Mass :: "NuclearLib \<Rightarrow> GHepParticle \<Rightarrow> real" where
  "Mass lib p = PdgMass lib (PdgCode p)"

text \<open>
  Modelled from the spec: \<open>utils::math::NonNegative\<close> is not at hand. The spec writes
  the new momentum as \<open>sqrt(max(0, E'^2 - m^2))\<close>.
\<close>

definition NonNegative :: "real \<Rightarrow> real" where
  "NonNegative x = max 0 x"

text \<open>
  \<open>FindMotherNucleus\<close>: the mother must be set and be a nucleon target, and the
  mother's mother must be set and be an ion. A position that is set but holds no particle
  gives a null pointer, which the code dereferences.
\<close>

definition FindMotherNucleus ::
  "NuclearLib \<Rightarrow> int \<Rightarrow> GHepRecord \<Rightarrow> fault + GHepParticle option" where
  "FindMotherNucleus lib ipos event_rec =
     (case Particle event_rec ipos of
        None \<Rightarrow> Inl NullPointer
      | Some p \<Rightarrow>
          let mother_pos = FirstMother p in
          if mother_pos \<noteq> -1 then
            (case Particle event_rec mother_pos of
               None \<Rightarrow> Inl NullPointer
             | Some mother \<Rightarrow>
                 if Status mother = kIstNucleonTarget then
                   let grandmother_pos = FirstMother mother in
                   if grandmother_pos \<noteq> -1 then
                     (case Particle event_rec grandmother_pos of
                        None \<Rightarrow> Inl NullPointer
                      | Some grandmother \<Rightarrow>
                          if IsIon lib (PdgCode grandmother) then Inr (Some grandmother)
                          else Inr None)
                   else Inr None
                 else Inr None)
          else Inr None)"

text \<open>
  The block that corrects one nucleon \<open>p\<close> (the body of \<open>if(nucleus)\<close>): it gives the
  nucleon with its new energy and momentum and the four-momentum of the bindino. The
  quotient \<open>pmag_new / pmag_old\<close> has no zero guard in the source.
\<close>

definition SubtractBindEnergy ::
  "NuclearLib \<Rightarrow> Target \<Rightarrow> GHepParticle \<Rightarrow> fault + GHepParticle \<times> TLorentzVector" where
  "SubtractBindEnergy lib target p =
     (let bindE = BindEnergyLastNucleon lib target;
          M = Mass lib p;
          En = Energy p - bindE;
          pmag_old = P (P4 p);
          pmag_new = sqrt (NonNegative (En * En - M * M))
      in if pmag_old = 0 then Inl NonFinite
         else
           let scale = pmag_new / pmag_old;
               pxn = scale * Px p;
               pyn = scale * Py p;
               pzn = scale * Pz p;
               pxb = (1 - scale) * Px p;
               pyb = (1 - scale) * Py p;
               pzb = (1 - scale) * Pz p
           in Inr (SetPz pzn (SetPy pyn (SetPx pxn (SetEnergy En p))),
                   \<lparr>fX = pxb, fY = pyb, fZ = pzb, fE = bindE\<rparr>))"

text \<open>One pass of the \<open>while\<close> loop, for the particle at position \<open>ipos\<close>.\<close>

definition visit :: "NuclearLib \<Rightarrow> nat \<Rightarrow> GHepRecord \<Rightarrow> fault + GHepRecord" where
  "visit lib ipos event_rec =
     (let p = particles event_rec ! ipos;
          is_nucleon = IsNeutronOrProton lib (PdgCode p);
          is_in_final_state = (Status p = kIStStableFinalState)
      in if is_nucleon \<and> is_in_final_state then
           (case FindMotherNucleus lib (int ipos) event_rec of
              Inl e \<Rightarrow> Inl e
            | Inr None \<Rightarrow> Inr event_rec
            | Inr (Some nucleus) \<Rightarrow>
                (case SubtractBindEnergy lib
                        (GetTarget (GetInitialState (GetInteraction event_rec))) p of
                   Inl e \<Rightarrow> Inl e
                 | Inr (pn, p4) \<Rightarrow>
                     Inr (AddParticle (kPdgBindino lib) kIStStableFinalState (-1) (-1) (-1) (-1)
                            p4 \<lparr>fX = 0, fY = 0, fZ = 0, fE = 0\<rparr>
                            (event_rec\<lparr>particles := (particles event_rec)[ipos := pn]\<rparr>))))
         else Inr event_rec)"

text \<open>
  The measure of the loop: the positions still to visit, plus the particles among them
  that have a mother. A correction appends a bindino, which has none.
\<close>

definition to_visit :: "nat \<Rightarrow> GHepRecord \<Rightarrow> nat" where
  "to_visit ipos event_rec =
     (length (particles event_rec) - ipos) +
     length (filter (\<lambda>q. FirstMother q \<noteq> -1) (drop ipos (particles event_rec)))"

lemma FindMotherNucleus_has_mother:
  assumes "FindMotherNucleus lib (int ipos) event_rec = Inr (Some nucleus)"
  shows "ipos < length (particles event_rec) \<and> FirstMother (particles event_rec ! ipos) \<noteq> -1"
  using assms
  by (auto simp: FindMotherNucleus_def Particle_def Let_def split: if_splits option.splits)

lemma visit_cases:
  assumes "visit lib ipos event_rec = Inr rec'"
  shows "rec' = event_rec \<or>
         (ipos < length (particles event_rec) \<and>
          FirstMother (particles event_rec ! ipos) \<noteq> -1 \<and>
          (\<exists>pn b. particles rec' = (particles event_rec)[ipos := pn] @ [b] \<and>
                   FirstMother b = -1))"
  using assms FindMotherNucleus_has_mother [of lib ipos event_rec]
  by (auto simp: visit_def Let_def AddParticle_def
      split: if_splits sum.splits option.splits prod.splits)

lemma to_visit_decreases:
  assumes "ipos < length (particles event_rec)" and "visit lib ipos event_rec = Inr rec'"
  shows "to_visit (Suc ipos) rec' < to_visit ipos event_rec"
proof -
  let ?ps = "particles event_rec"
  have split: "drop ipos ?ps = ?ps ! ipos # drop (Suc ipos) ?ps"
    using assms(1) by (simp add: Cons_nth_drop_Suc)
  from visit_cases [OF assms(2)] show ?thesis
  proof
    assume same: "rec' = event_rec"
    have "length (filter (\<lambda>q. FirstMother q \<noteq> -1) (drop (Suc ipos) ?ps))
        \<le> length (filter (\<lambda>q. FirstMother q \<noteq> -1) (drop ipos ?ps))"
      unfolding split by simp
    then show ?thesis
      using assms(1) unfolding to_visit_def same by arith
  next
    assume "ipos < length ?ps \<and> FirstMother (?ps ! ipos) \<noteq> -1 \<and>
      (\<exists>pn b. particles rec' = ?ps[ipos := pn] @ [b] \<and> FirstMother b = -1)"
    then obtain pn b where m: "FirstMother (?ps ! ipos) \<noteq> -1"
      and r: "particles rec' = ?ps[ipos := pn] @ [b]" and b: "FirstMother b = -1"
      by blast
    have "drop (Suc ipos) (particles rec') = drop (Suc ipos) ?ps @ [b]"
      using assms(1) by (simp add: r drop_update_cancel)
    then show ?thesis
      using assms(1) m b unfolding to_visit_def split r by simp
  qed
qed

text \<open>
  The \<open>while\<close> loop. ROOT's iterator reads the array anew at every step, so it also
  visits the bindinos that the loop appends.
\<close>

function ProcessLoop :: "NuclearLib \<Rightarrow> nat \<Rightarrow> GHepRecord \<Rightarrow> fault + GHepRecord" where
  "ProcessLoop lib ipos event_rec =
     (if ipos < length (particles event_rec) then
        (case visit lib ipos event_rec of
           Inl e \<Rightarrow> Inl e
         | Inr rec' \<Rightarrow> ProcessLoop lib (Suc ipos) rec')
      else Inr event_rec)"
  by pat_completeness auto
termination
  by (relation "measure (\<lambda>(lib, ipos, event_rec). to_visit ipos event_rec)")
     (auto simp: to_visit_decreases)

definition ProcessEventRecord :: "NuclearLib \<Rightarrow> GHepRecord \<Rightarrow> fault + GHepRecord" where
  "ProcessEventRecord lib event_rec = ProcessLoop lib 0 event_rec"

section \<open>The correction of one nucleon\<close>

text \<open>
  The correction has a value exactly when the nucleon has momentum, and then the
  corrected nucleon and the bindino together carry the energy and momentum of the
  nucleon before the correction.
\<close>

lemma P_nonneg: "0 \<le> P v"
  by (simp add: P_def)

lemma P_zero_iff: "P v = 0 \<longleftrightarrow> fX v = 0 \<and> fY v = 0 \<and> fZ v = 0"
proof -
  have "fX v * fX v + fY v * fY v + fZ v * fZ v = 0 \<longleftrightarrow> fX v = 0 \<and> fY v = 0 \<and> fZ v = 0"
    using sum_power2_eq_zero_iff [of "fX v" "fY v"]
      sum_power2_eq_zero_iff [of "sqrt ((fX v)\<^sup>2 + (fY v)\<^sup>2)" "fZ v"]
    by (auto simp: power2_eq_square [symmetric] add_nonneg_eq_0_iff)
  then show ?thesis by (simp add: P_def)
qed

lemma P_square: "P v * P v = fX v * fX v + fY v * fY v + fZ v * fZ v"
  by (simp add: P_def)

lemma SubtractBindEnergy_Inl:
  "SubtractBindEnergy lib t p = Inl e \<longleftrightarrow> (e = NonFinite \<and> P (P4 p) = 0)"
  by (auto simp: SubtractBindEnergy_def Let_def)

lemma SubtractBindEnergy_Inr:
  assumes "P (P4 p) \<noteq> 0"
  shows "SubtractBindEnergy lib target p =
    (let bindE = BindEnergyLastNucleon lib target;
         scale = sqrt (max 0 ((Energy p - bindE) * (Energy p - bindE) - Mass lib p * Mass lib p))
                   / P (P4 p)
     in Inr (p\<lparr>P4 := \<lparr>fX = scale * Px p, fY = scale * Py p, fZ = scale * Pz p,
                        fE = Energy p - bindE\<rparr>\<rparr>,
             \<lparr>fX = (1 - scale) * Px p, fY = (1 - scale) * Py p, fZ = (1 - scale) * Pz p,
              fE = bindE\<rparr>))"
  using assms
  by (simp add: SubtractBindEnergy_def Let_def NonNegative_def SetPx_def SetPy_def SetPz_def
      SetEnergy_def Px_def Py_def Pz_def Energy_def)

lemma SubtractBindEnergy_skeleton:
  assumes "SubtractBindEnergy lib t p = Inr (pn, p4)"
  shows "PdgCode pn = PdgCode p \<and> Status pn = Status p \<and> FirstMother pn = FirstMother p"
  using assms
  by (auto simp: SubtractBindEnergy_def Let_def SetPx_def SetPy_def SetPz_def SetEnergy_def
      split: if_splits)

lemma binding_correction_conserves:
  assumes "SubtractBindEnergy lib target p = Inr (pn, p4)"
  shows "Energy pn + fE p4 = Energy p \<and> Px pn + fX p4 = Px p \<and>
         Py pn + fY p4 = Py p \<and> Pz pn + fZ p4 = Pz p"
proof -
  have nz: "P (P4 p) \<noteq> 0"
    using assms by (auto simp: SubtractBindEnergy_def Let_def split: if_splits)
  show ?thesis
    using assms unfolding SubtractBindEnergy_Inr [OF nz]
    by (auto simp: Let_def Px_def Py_def Pz_def Energy_def algebra_simps)
qed

section \<open>The pass over a whole record\<close>

text \<open>
  The loop is characterised on records whose mother positions are all valid: there
  \<open>FindMotherNucleus\<close> dereferences no null pointer, and the pass either meets a bound
  nucleon at rest or returns the record described by \<open>pass_from\<close>.
\<close>

definition wf_mothers :: "GHepRecord \<Rightarrow> bool" where
  "wf_mothers event_rec =
     (\<forall>p \<in> set (particles event_rec).
        FirstMother p = -1 \<or> (0 \<le> FirstMother p \<and> FirstMother p < int (length (particles event_rec))))"

definition found :: "fault + GHepParticle option \<Rightarrow> bool" where
  "found r = (case r of Inr (Some nucleus) \<Rightarrow> True | _ \<Rightarrow> False)"

definition bound_nucleon :: "NuclearLib \<Rightarrow> GHepRecord \<Rightarrow> nat \<Rightarrow> bool" where
  "bound_nucleon lib event_rec i =
     (let p = particles event_rec ! i in
      IsNeutronOrProton lib (PdgCode p) \<and> Status p = kIStStableFinalState \<and>
      found (FindMotherNucleus lib (int i) event_rec))"

text \<open>
  The three checks of \<open>FindMotherNucleus\<close> spelt out for a particle of the record.
\<close>

definition from_nucleus :: "NuclearLib \<Rightarrow> GHepRecord \<Rightarrow> GHepParticle \<Rightarrow> bool" where
  "from_nucleus lib event_rec p =
     (FirstMother p \<noteq> -1 \<and>
      (case Particle event_rec (FirstMother p) of
         None \<Rightarrow> False
       | Some mother \<Rightarrow>
           Status mother = kIstNucleonTarget \<and> FirstMother mother \<noteq> -1 \<and>
           (case Particle event_rec (FirstMother mother) of
              None \<Rightarrow> False
            | Some grandmother \<Rightarrow> IsIon lib (PdgCode grandmother))))"

definition target_of :: "GHepRecord \<Rightarrow> Target" where
  "target_of event_rec = GetTarget (GetInitialState (GetInteraction event_rec))"

definition bindino :: "NuclearLib \<Rightarrow> TLorentzVector \<Rightarrow> GHepParticle" where
  "bindino lib p4 =
     \<lparr>PdgCode = kPdgBindino lib, Status = kIStStableFinalState, FirstMother = -1,
      LastMother = -1, FirstDaughter = -1, LastDaughter = -1, P4 = p4,
      V4 = \<lparr>fX = 0, fY = 0, fZ = 0, fE = 0\<rparr>\<rparr>"

definition corrected :: "NuclearLib \<Rightarrow> GHepRecord \<Rightarrow> nat \<Rightarrow> GHepParticle" where
  "corrected lib event_rec i =
     (let p = particles event_rec ! i in
      if bound_nucleon lib event_rec i then
        (case SubtractBindEnergy lib (target_of event_rec) p of
           Inr (pn, p4) \<Rightarrow> pn | Inl e \<Rightarrow> p)
      else p)"

definition bindino_of :: "NuclearLib \<Rightarrow> GHepRecord \<Rightarrow> nat \<Rightarrow> GHepParticle" where
  "bindino_of lib event_rec i =
     (case SubtractBindEnergy lib (target_of event_rec) (particles event_rec ! i) of
        Inr (pn, p4) \<Rightarrow> bindino lib p4
      | Inl e \<Rightarrow> bindino lib \<lparr>fX = 0, fY = 0, fZ = 0, fE = 0\<rparr>)"

definition at_rest :: "NuclearLib \<Rightarrow> GHepRecord \<Rightarrow> nat \<Rightarrow> bool" where
  "at_rest lib event_rec i = (bound_nucleon lib event_rec i \<and> P (P4 (particles event_rec ! i)) = 0)"

definition none_at_rest :: "NuclearLib \<Rightarrow> GHepRecord \<Rightarrow> bool" where
  "none_at_rest lib event_rec =
     (\<not> (\<exists>i \<in> set [0 ..< length (particles event_rec)]. at_rest lib event_rec i))"

definition same_skeleton :: "GHepParticle \<Rightarrow> GHepParticle \<Rightarrow> bool" where
  "same_skeleton q p = (PdgCode q = PdgCode p \<and> Status q = Status p \<and> FirstMother q = FirstMother p)"

definition pass_from :: "NuclearLib \<Rightarrow> GHepRecord \<Rightarrow> nat \<Rightarrow> GHepRecord" where
  "pass_from lib event_rec ipos =
     event_rec\<lparr>particles :=
       take ipos (particles event_rec) @
       map (corrected lib event_rec) [ipos ..< length (particles event_rec)] @
       map (bindino_of lib event_rec)
         (filter (bound_nucleon lib event_rec) [ipos ..< length (particles event_rec)])\<rparr>"

lemma wf_FindMotherNucleus:
  assumes "wf_mothers event_rec" and "i < length (particles event_rec)"
  shows "\<exists>r. FindMotherNucleus lib (int i) event_rec = Inr r"
proof -
  have v: "\<And>q. q \<in> set (particles event_rec) \<Longrightarrow> FirstMother q \<noteq> -1 \<Longrightarrow>
      Particle event_rec (FirstMother q) = Some (particles event_rec ! nat (FirstMother q)) \<and>
      particles event_rec ! nat (FirstMother q) \<in> set (particles event_rec)"
    using assms(1) by (auto simp: wf_mothers_def Particle_def)
  have p: "Particle event_rec (int i) = Some (particles event_rec ! i)"
    using assms(2) by (simp add: Particle_def)
  have pin: "particles event_rec ! i \<in> set (particles event_rec)"
    using assms(2) by simp
  show ?thesis
    unfolding FindMotherNucleus_def p using v [OF pin] v
    by (auto simp: Let_def)
qed

lemma visit_wf:
  assumes "wf_mothers event_rec" and "ipos < length (particles event_rec)"
  shows "visit lib ipos event_rec =
     (if bound_nucleon lib event_rec ipos then
        (if P (P4 (particles event_rec ! ipos)) = 0 then Inl NonFinite
         else Inr (event_rec\<lparr>particles := (particles event_rec)[ipos := corrected lib event_rec ipos]
                      @ [bindino_of lib event_rec ipos]\<rparr>))
      else Inr event_rec)"
proof -
  obtain r where r: "FindMotherNucleus lib (int ipos) event_rec = Inr r"
    using wf_FindMotherNucleus [OF assms] by blast
  show ?thesis
  proof (cases "SubtractBindEnergy lib (target_of event_rec) (particles event_rec ! ipos)")
    case (Inl e)
    then show ?thesis
      using r SubtractBindEnergy_Inl [of lib "target_of event_rec" "particles event_rec ! ipos" e]
      by (auto simp: visit_def bound_nucleon_def found_def Let_def target_of_def
          split: option.splits)
  next
    case (Inr pr)
    then have "P (P4 (particles event_rec ! ipos)) \<noteq> 0"
      by (auto simp: SubtractBindEnergy_def Let_def split: if_splits)
    then show ?thesis
      using r Inr
      by (cases pr) (auto simp: visit_def bound_nucleon_def found_def Let_def target_of_def
          corrected_def bindino_of_def bindino_def AddParticle_def split: option.splits)
  qed
qed

lemma visit_bound:
  assumes "bound_nucleon lib event_rec ipos" and "P (P4 (particles event_rec ! ipos)) \<noteq> 0"
    and "SubtractBindEnergy lib (target_of event_rec) (particles event_rec ! ipos) = Inr (pn, p4)"
  shows "visit lib ipos event_rec =
     Inr (event_rec\<lparr>particles := (particles event_rec)[ipos := pn] @ [bindino lib p4]\<rparr>)"
  using assms
  by (auto simp: visit_def bound_nucleon_def found_def Let_def target_of_def AddParticle_def
      bindino_def split: sum.splits option.splits)

lemma found_same:
  assumes wf: "wf_mothers event_rec"
    and len: "length (particles event_rec) \<le> length (particles rec1)"
    and sk: "\<And>j. j < length (particles event_rec) \<Longrightarrow>
               same_skeleton (particles rec1 ! j) (particles event_rec ! j)"
    and i: "i < length (particles event_rec)"
  shows "found (FindMotherNucleus lib (int i) rec1) = found (FindMotherNucleus lib (int i) event_rec)"
proof -
  let ?ps = "particles event_rec" and ?qs = "particles rec1"
  have look: "\<And>j. j < length ?ps \<Longrightarrow>
      Particle event_rec (int j) = Some (?ps ! j) \<and> Particle rec1 (int j) = Some (?qs ! j)"
    using len by (simp add: Particle_def)
  have mother: "\<And>j. j < length ?ps \<Longrightarrow> FirstMother (?ps ! j) \<noteq> -1 \<Longrightarrow>
      \<exists>m < length ?ps. FirstMother (?ps ! j) = int m"
  proof -
    fix j assume j: "j < length ?ps" and set: "FirstMother (?ps ! j) \<noteq> -1"
    have "?ps ! j \<in> set ?ps" using j by simp
    with wf set have "0 \<le> FirstMother (?ps ! j) \<and> FirstMother (?ps ! j) < int (length ?ps)"
      by (auto simp: wf_mothers_def)
    then show "\<exists>m < length ?ps. FirstMother (?ps ! j) = int m"
      by (intro exI [of _ "nat (FirstMother (?ps ! j))"]) auto
  qed
  show ?thesis
  proof (cases "FirstMother (?ps ! i) = -1")
    case True
    then show ?thesis
      using look [OF i] sk [OF i]
      by (simp add: FindMotherNucleus_def same_skeleton_def found_def)
  next
    case False
    then obtain m where m: "m < length ?ps" "FirstMother (?ps ! i) = int m"
      using mother [OF i] by blast
    show ?thesis
    proof (cases "Status (?ps ! m) = kIstNucleonTarget \<and> FirstMother (?ps ! m) \<noteq> -1")
      case True
      then obtain g where g: "g < length ?ps" "FirstMother (?ps ! m) = int g"
        using mother [OF m(1)] by blast
      show ?thesis
        using look [OF i] sk [OF i] look [OF m(1)] sk [OF m(1)] look [OF g(1)] sk [OF g(1)]
          m(2) g(2) True False
        by (simp add: FindMotherNucleus_def same_skeleton_def found_def Let_def)
    next
      case F2: False
      then show ?thesis
        using look [OF i] sk [OF i] look [OF m(1)] sk [OF m(1)] m(2) False
        by (auto simp add: FindMotherNucleus_def same_skeleton_def found_def Let_def)
    qed
  qed
qed

lemma no_mother_not_found:
  assumes "i < length (particles event_rec)" and "FirstMother (particles event_rec ! i) = -1"
  shows "\<not> found (FindMotherNucleus lib (int i) event_rec)"
  using assms by (simp add: FindMotherNucleus_def Particle_def found_def)

lemma corrected_skeleton:
  "same_skeleton (corrected lib event_rec i) (particles event_rec ! i)"
proof (cases "SubtractBindEnergy lib (target_of event_rec) (particles event_rec ! i)")
  case (Inl e)
  then show ?thesis by (simp add: corrected_def same_skeleton_def Let_def)
next
  case (Inr pr)
  then show ?thesis
    using SubtractBindEnergy_skeleton [of lib "target_of event_rec" "particles event_rec ! i" "fst pr" "snd pr"]
    by (cases pr) (simp add: corrected_def same_skeleton_def Let_def)
qed

lemma bindino_of_no_mother: "FirstMother (bindino_of lib event_rec i) = -1"
  by (simp add: bindino_of_def bindino_def split: sum.splits prod.splits)

lemma step_facts:
  assumes wf: "wf_mothers event_rec" and ipos: "ipos < length (particles event_rec)"
    and rec1: "rec1 = event_rec\<lparr>particles := (particles event_rec)[ipos := corrected lib event_rec ipos]
                      @ [bindino_of lib event_rec ipos]\<rparr>"
  shows "wf_mothers rec1"
    and "length (particles rec1) = Suc (length (particles event_rec))"
    and "\<And>j. j < length (particles event_rec) \<Longrightarrow> bound_nucleon lib rec1 j = bound_nucleon lib event_rec j"
    and "\<And>j. ipos < j \<Longrightarrow> j < length (particles event_rec) \<Longrightarrow>
           corrected lib rec1 j = corrected lib event_rec j \<and>
           bindino_of lib rec1 j = bindino_of lib event_rec j \<and>
           at_rest lib rec1 j = at_rest lib event_rec j"
    and "\<not> bound_nucleon lib rec1 (length (particles event_rec))"
    and "corrected lib rec1 (length (particles event_rec)) = bindino_of lib event_rec ipos"
proof -
  let ?ps = "particles event_rec" and ?n = "length (particles event_rec)"
  let ?c = "corrected lib event_rec ipos" and ?b = "bindino_of lib event_rec ipos"
  have ps1: "particles rec1 = ?ps[ipos := ?c] @ [?b]" by (simp add: rec1)
  show len: "length (particles rec1) = Suc ?n" by (simp add: ps1)
  have nth: "\<And>j. j < ?n \<Longrightarrow> particles rec1 ! j = (if j = ipos then ?c else ?ps ! j)"
    by (simp add: ps1 nth_append nth_list_update)
  have last: "particles rec1 ! ?n = ?b" by (simp add: ps1 nth_append)
  have sk: "\<And>j. j < ?n \<Longrightarrow> same_skeleton (particles rec1 ! j) (?ps ! j)"
    using corrected_skeleton [of lib event_rec ipos] by (simp add: nth same_skeleton_def)
  show "wf_mothers rec1"
    unfolding wf_mothers_def
  proof
    fix p assume "p \<in> set (particles rec1)"
    then obtain j where j: "j < Suc ?n" "p = particles rec1 ! j"
      using len by (metis in_set_conv_nth)
    show "FirstMother p = - 1 \<or> 0 \<le> FirstMother p \<and> FirstMother p < int (length (particles rec1))"
    proof (cases "j < ?n")
      case True
      then have "FirstMother p = FirstMother (?ps ! j)"
        using sk [OF True] j by (simp add: same_skeleton_def)
      moreover have "?ps ! j \<in> set ?ps" using True by simp
      ultimately show ?thesis using wf len by (auto simp: wf_mothers_def)
    next
      case False
      then have "j = ?n" using j by simp
      then show ?thesis using j last bindino_of_no_mother by simp
    qed
  qed
  show b: "\<And>j. j < ?n \<Longrightarrow> bound_nucleon lib rec1 j = bound_nucleon lib event_rec j"
  proof -
    fix j assume j: "j < ?n"
    have "length ?ps \<le> length (particles rec1)" using len by simp
    from found_same [OF wf this sk j]
    have "found (FindMotherNucleus lib (int j) rec1) = found (FindMotherNucleus lib (int j) event_rec)"
      by simp
    then show "bound_nucleon lib rec1 j = bound_nucleon lib event_rec j"
      using sk [OF j] by (simp add: bound_nucleon_def same_skeleton_def Let_def)
  qed
  have tgt: "target_of rec1 = target_of event_rec" by (simp add: rec1 target_of_def)
  show "\<And>j. ipos < j \<Longrightarrow> j < ?n \<Longrightarrow>
           corrected lib rec1 j = corrected lib event_rec j \<and>
           bindino_of lib rec1 j = bindino_of lib event_rec j \<and>
           at_rest lib rec1 j = at_rest lib event_rec j"
    using b nth by (simp add: corrected_def bindino_of_def at_rest_def tgt Let_def)
  have "\<not> found (FindMotherNucleus lib (int ?n) rec1)"
    using no_mother_not_found [of ?n rec1 lib] len last bindino_of_no_mother by simp
  then show nb: "\<not> bound_nucleon lib rec1 ?n" by (simp add: bound_nucleon_def)
  show "corrected lib rec1 ?n = ?b" using nb last by (simp add: corrected_def)
qed

lemma ProcessLoop_wf:
  assumes "wf_mothers event_rec" and "ipos \<le> length (particles event_rec)"
  shows "ProcessLoop lib ipos event_rec =
     (if \<exists>i \<in> set [ipos ..< length (particles event_rec)]. at_rest lib event_rec i
      then Inl NonFinite else Inr (pass_from lib event_rec ipos))"
  using assms
proof (induction lib ipos event_rec rule: ProcessLoop.induct)
  case (1 lib ipos event_rec)
  let ?ps = "particles event_rec" and ?n = "length (particles event_rec)"
  show ?case
  proof (cases "ipos < ?n")
    case False
    then have "ipos = ?n" using "1.prems" by simp
    then show ?thesis by (simp add: pass_from_def)
  next
    case True
    have upt: "[ipos ..< ?n] = ipos # [Suc ipos ..< ?n]"
      using True by (simp add: upt_conv_Cons)
    note v = visit_wf [OF "1.prems"(1) True, of lib]
    show ?thesis
    proof (cases "bound_nucleon lib event_rec ipos")
      case False
      then have vis: "visit lib ipos event_rec = Inr event_rec" using v by simp
      have ih: "ProcessLoop lib (Suc ipos) event_rec =
        (if \<exists>i \<in> set [Suc ipos ..< ?n]. at_rest lib event_rec i
         then Inl NonFinite else Inr (pass_from lib event_rec (Suc ipos)))"
        using "1.IH" [OF True vis "1.prems"(1)] True by simp
      have "pass_from lib event_rec ipos = pass_from lib event_rec (Suc ipos)"
        using False True
        by (simp add: pass_from_def upt corrected_def take_Suc_conv_app_nth)
      moreover have "(\<exists>i \<in> set [ipos ..< ?n]. at_rest lib event_rec i) =
          (\<exists>i \<in> set [Suc ipos ..< ?n]. at_rest lib event_rec i)"
        using False unfolding upt by (simp add: at_rest_def)
      ultimately show ?thesis
        using True vis ih by (simp del: set_upt)
    next
      case bound: True
      show ?thesis
      proof (cases "P (P4 (?ps ! ipos)) = 0")
        case True
        then have "visit lib ipos event_rec = Inl NonFinite" using v bound by simp
        moreover have "\<exists>i \<in> set [ipos ..< ?n]. at_rest lib event_rec i"
          using bound True \<open>ipos < ?n\<close> by (auto simp: at_rest_def)
        ultimately show ?thesis using \<open>ipos < ?n\<close> by (simp del: set_upt)
      next
        case False
        define rec1 where "rec1 = event_rec\<lparr>particles := ?ps[ipos := corrected lib event_rec ipos]
                      @ [bindino_of lib event_rec ipos]\<rparr>"
        note f = step_facts [OF "1.prems"(1) True rec1_def]
        have vis: "visit lib ipos event_rec = Inr rec1"
          using v bound False by (simp add: rec1_def)
        have ih: "ProcessLoop lib (Suc ipos) rec1 =
          (if \<exists>i \<in> set [Suc ipos ..< Suc ?n]. at_rest lib rec1 i
           then Inl NonFinite else Inr (pass_from lib rec1 (Suc ipos)))"
          using "1.IH" [OF True vis f(1)] True f(2) by simp
        have ex: "(\<exists>i \<in> set [Suc ipos ..< Suc ?n]. at_rest lib rec1 i) =
            (\<exists>i \<in> set [ipos ..< ?n]. at_rest lib event_rec i)"
        proof -
          have "\<not> at_rest lib rec1 ?n" using f(5) by (simp add: at_rest_def)
          moreover have "\<not> at_rest lib event_rec ipos" using False by (simp add: at_rest_def)
          moreover have same: "\<And>j. ipos < j \<Longrightarrow> j < ?n \<Longrightarrow> at_rest lib rec1 j = at_rest lib event_rec j"
            using f(4) by simp
          ultimately have l: "\<And>i. Suc ipos \<le> i \<Longrightarrow> i < Suc ?n \<Longrightarrow> at_rest lib rec1 i \<Longrightarrow>
              ipos \<le> i \<and> i < ?n \<and> at_rest lib event_rec i"
            by (metis Suc_le_lessD less_Suc_eq less_imp_le_nat)
          have r: "\<And>i. ipos \<le> i \<Longrightarrow> i < ?n \<Longrightarrow> at_rest lib event_rec i \<Longrightarrow>
              Suc ipos \<le> i \<and> i < Suc ?n \<and> at_rest lib rec1 i"
            using \<open>\<not> at_rest lib event_rec ipos\<close> same
            by (metis Suc_leI le_neq_implies_less less_SucI)
          show ?thesis
            using l r by (simp only: set_upt atLeastLessThan_iff Bex_def) blast
        qed
        have m1: "map (corrected lib rec1) [Suc ipos ..< ?n] = map (corrected lib event_rec) [Suc ipos ..< ?n]"
          using f(4) by simp
        have fl: "filter (bound_nucleon lib rec1) [Suc ipos ..< ?n] =
                  filter (bound_nucleon lib event_rec) [Suc ipos ..< ?n]"
          using f(3) by (intro filter_cong) auto
        have m2: "map (bindino_of lib rec1) (filter (bound_nucleon lib event_rec) [Suc ipos ..< ?n]) =
                  map (bindino_of lib event_rec) (filter (bound_nucleon lib event_rec) [Suc ipos ..< ?n])"
          using f(4) by (intro map_cong) auto
        have tk: "take (Suc ipos) (particles rec1) = take ipos ?ps @ [corrected lib event_rec ipos]"
          using True by (simp add: rec1_def take_Suc_conv_app_nth nth_append)
        have up: "[Suc ipos ..< Suc ?n] = [Suc ipos ..< ?n] @ [?n]"
          using True by simp
        have "take (Suc ipos) (particles rec1) @
            map (corrected lib rec1) [Suc ipos ..< length (particles rec1)] @
            map (bindino_of lib rec1)
              (filter (bound_nucleon lib rec1) [Suc ipos ..< length (particles rec1)]) =
            take ipos ?ps @ map (corrected lib event_rec) [ipos ..< ?n] @
            map (bindino_of lib event_rec) (filter (bound_nucleon lib event_rec) [ipos ..< ?n])"
          unfolding f(2) tk up upt
          using bound f(5) f(6) by (simp add: m1 fl m2)
        then have pf: "pass_from lib rec1 (Suc ipos) = pass_from lib event_rec ipos"
          unfolding pass_from_def by (simp add: rec1_def)
        show ?thesis
          using True vis ih ex pf by (simp del: set_upt)
      qed
    qed
  qed
qed

lemma ProcessEventRecord_wf:
  assumes "wf_mothers event_rec"
  shows "ProcessEventRecord lib event_rec =
     (if none_at_rest lib event_rec then Inr (pass_from lib event_rec 0) else Inl NonFinite)"
  using ProcessLoop_wf [OF assms, of 0 lib]
  by (simp add: ProcessEventRecord_def none_at_rest_def del: set_upt)

lemma pass_from_nth:
  assumes "i < length (particles event_rec)"
  shows "particles (pass_from lib event_rec 0) ! i = corrected lib event_rec i"
  using assms by (simp add: pass_from_def nth_append)

lemma pass_from_length:
  "length (particles event_rec) \<le> length (particles (pass_from lib event_rec 0))"
  by (simp add: pass_from_def)

lemma pass_from_drop:
  "drop (length (particles event_rec)) (particles (pass_from lib event_rec 0)) =
     map (bindino_of lib event_rec)
       (filter (bound_nucleon lib event_rec) [0 ..< length (particles event_rec)])"
  by (simp add: pass_from_def)

lemma none_at_rest_iff:
  "none_at_rest lib event_rec \<longleftrightarrow>
     (\<forall>i < length (particles event_rec). bound_nucleon lib event_rec i \<longrightarrow>
        P (P4 (particles event_rec ! i)) \<noteq> 0)"
  by (auto simp: none_at_rest_def at_rest_def)

lemma at_rest_iff:
  "at_rest lib event_rec i \<longleftrightarrow> bound_nucleon lib event_rec i \<and>
     Px (particles event_rec ! i) = 0 \<and> Py (particles event_rec ! i) = 0 \<and>
     Pz (particles event_rec ! i) = 0"
  by (simp add: at_rest_def P_zero_iff Px_def Py_def Pz_def)

lemma found_from_nucleus:
  assumes "i < length (particles event_rec)"
  shows "found (FindMotherNucleus lib (int i) event_rec) =
         from_nucleus lib event_rec (particles event_rec ! i)"
  using assms
  by (auto simp: found_def FindMotherNucleus_def from_nucleus_def Particle_def Let_def
      split: option.splits)

lemma bound_nucleon_iff:
  assumes "i < length (particles event_rec)"
  shows "bound_nucleon lib event_rec i \<longleftrightarrow>
     IsNeutronOrProton lib (PdgCode (particles event_rec ! i)) \<and>
     Status (particles event_rec ! i) = kIStStableFinalState \<and>
     from_nucleus lib event_rec (particles event_rec ! i)"
  by (simp add: bound_nucleon_def Let_def found_from_nucleus [OF assms])

lemma pass_from_unbound:
  assumes "\<And>i. i < length (particles event_rec) \<Longrightarrow> \<not> bound_nucleon lib event_rec i"
  shows "pass_from lib event_rec 0 = event_rec"
proof -
  have "map (corrected lib event_rec) [0 ..< length (particles event_rec)] =
        map (\<lambda>i. particles event_rec ! i) [0 ..< length (particles event_rec)]"
    using assms by (intro map_cong) (auto simp: corrected_def Let_def)
  moreover have "filter (bound_nucleon lib event_rec) [0 ..< length (particles event_rec)] = []"
    using assms by (simp add: filter_empty_conv)
  ultimately show ?thesis
    by (simp add: pass_from_def map_nth)
qed

lemma bindino_of_bound:
  fixes lib :: NuclearLib and event_rec :: GHepRecord and i :: nat
  defines "p \<equiv> particles event_rec ! i"
  defines "bindE \<equiv> BindEnergyLastNucleon lib (target_of event_rec)"
  defines "scale \<equiv> sqrt (max 0 ((Energy p - bindE)\<^sup>2 - (Mass lib p)\<^sup>2)) / P (P4 p)"
  assumes "P (P4 p) \<noteq> 0"
  shows "bindino_of lib event_rec i =
     bindino lib \<lparr>fX = (1 - scale) * Px p, fY = (1 - scale) * Py p, fZ = (1 - scale) * Pz p,
                  fE = bindE\<rparr>"
  using SubtractBindEnergy_Inr [OF assms(4), of lib "target_of event_rec"]
  by (simp add: bindino_of_def Let_def bindE_def scale_def power2_eq_square p_def)

lemma corrected_bound:
  fixes lib :: NuclearLib and event_rec :: GHepRecord and i :: nat
  defines "p \<equiv> particles event_rec ! i"
  defines "bindE \<equiv> BindEnergyLastNucleon lib (target_of event_rec)"
  defines "scale \<equiv> sqrt (max 0 ((Energy p - bindE)\<^sup>2 - (Mass lib p)\<^sup>2)) / P (P4 p)"
  assumes "bound_nucleon lib event_rec i" and "P (P4 p) \<noteq> 0"
  shows "corrected lib event_rec i =
     p\<lparr>P4 := \<lparr>fX = scale * Px p, fY = scale * Py p, fZ = scale * Pz p,
               fE = Energy p - bindE\<rparr>\<rparr>"
  using SubtractBindEnergy_Inr [OF assms(5), of lib "target_of event_rec"] assms(4)
  by (simp add: corrected_def Let_def bindE_def scale_def power2_eq_square p_def)

lemma pass_from_bindino:
  assumes "k < length (filter (bound_nucleon lib event_rec) [0 ..< length (particles event_rec)])"
  shows "particles (pass_from lib event_rec 0) ! (length (particles event_rec) + k) =
     bindino_of lib event_rec
       (filter (bound_nucleon lib event_rec) [0 ..< length (particles event_rec)] ! k)"
  using assms by (simp add: pass_from_def nth_append)

section \<open>Example records\<close>

text \<open>
  An instance of the library parameters in the PDG numbering scheme, and a record of
  three particles: an iron nucleus, a proton inside it and a final-state proton that
  has the second particle as its mother. The status of the second particle and the
  momentum and energy of the third are left open. Energies and momenta are in units of
  1/64 GeV, so that the nucleon mass is 60.
\<close>

definition demo_lib :: NuclearLib where
  "demo_lib = \<lparr>IsNeutronOrProton = (\<lambda>c. c = 2212 \<or> c = 2112),
     IsIon = (\<lambda>c. 1000000000 < c \<and> c < 1999999999),
     kPdgBindino = 2000000101,
     PdgMass = (\<lambda>c. if c = 2212 \<or> c = 2112 then 60 else 0),
     BindEnergyLastNucleon = (\<lambda>t. 4)\<rparr>"

definition demo_interaction :: Interaction where
  "demo_interaction = \<lparr>GetInitialState = \<lparr>GetTarget = \<lparr>Z = 26\<rparr>, GetProbeE = 192\<rparr>,
     GetKinematics_y = 1 / 2, fBits = {}\<rparr>"

definition origin :: TLorentzVector where
  "origin = \<lparr>fX = 0, fY = 0, fZ = 0, fE = 0\<rparr>"

definition demo_particle :: "int \<Rightarrow> GHepStatus_t \<Rightarrow> int \<Rightarrow> real \<Rightarrow> real \<Rightarrow> GHepParticle" where
  "demo_particle pdgc ist mom px e =
     \<lparr>PdgCode = pdgc, Status = ist, FirstMother = mom, LastMother = -1, FirstDaughter = -1,
      LastDaughter = -1, P4 = \<lparr>fX = px, fY = 0, fZ = 0, fE = e\<rparr>, V4 = origin\<rparr>"

definition demo_event :: "GHepStatus_t \<Rightarrow> real \<Rightarrow> real \<Rightarrow> GHepRecord" where
  "demo_event ist px e = \<lparr>GetInteraction = demo_interaction, particles =
     [demo_particle 1000260560 (kIStOther 0) (-1) 0 3328,
      demo_particle 2212 ist 0 0 60,
      demo_particle 2212 kIStStableFinalState 1 px e]\<rparr>"

lemma wf_demo: "wf_mothers (demo_event ist px e)"
  by (simp add: wf_mothers_def demo_event_def demo_particle_def)

lemma bound_demo:
  "bound_nucleon demo_lib (demo_event ist px e) i =
     (if i = 2 then ist = kIstNucleonTarget else False)"
  if "i < 3"
proof -
  from that consider "i = 0" | "i = 1" | "i = 2" by linarith
  then show ?thesis
    by cases (simp_all add: bound_nucleon_def found_def FindMotherNucleus_def Particle_def
        demo_event_def demo_particle_def demo_lib_def Let_def)
qed

lemma P_demo: "P (P4 (particles (demo_event ist px e) ! 2)) = \<bar>px\<bar>"
  by (simp add: P_def demo_event_def demo_particle_def)

lemma demo_nth2: "particles (demo_event ist px e) ! 2 = demo_particle 2212 kIStStableFinalState 1 px e"
  by (simp add: demo_event_def)

lemma sqrt_121: "sqrt 121 = 11"
  by (rule real_sqrt_unique) simp_all

lemma upt_3: "[0 ..< 3] = [0, 1, 2]"
  by (simp add: upt_rec)

lemma demo_bound_list:
  "filter (bound_nucleon demo_lib (demo_event kIstNucleonTarget px e)) [0 ..< 3] = [2]"
  using bound_demo [of 0 kIstNucleonTarget px e] bound_demo [of 1 kIstNucleonTarget px e]
    bound_demo [of 2 kIstNucleonTarget px e]
  unfolding upt_3 by (simp only: filter.simps) simp

lemma demo_pass:
  "ProcessEventRecord demo_lib (demo_event kIstNucleonTarget 25 65) =
     Inr \<lparr>GetInteraction = demo_interaction, particles =
       [demo_particle 1000260560 (kIStOther 0) (-1) 0 3328,
        demo_particle 2212 kIstNucleonTarget 0 0 60,
        demo_particle 2212 kIStStableFinalState 1 11 61,
        bindino demo_lib \<lparr>fX = 14, fY = 0, fZ = 0, fE = 4\<rparr>]\<rparr>"
proof -
  let ?ev = "demo_event kIstNucleonTarget 25 65"
  have len: "length (particles ?ev) = 3" by (simp add: demo_event_def)
  have n: "none_at_rest demo_lib ?ev"
    unfolding none_at_rest_iff len using bound_demo [of _ kIstNucleonTarget 25 65]
    by (auto simp: P_demo)
  have p: "P (P4 (particles ?ev ! 2)) \<noteq> 0" by (simp add: P_demo)
  have v: "Energy (particles ?ev ! 2) = 65" "Px (particles ?ev ! 2) = 25"
    "Py (particles ?ev ! 2) = 0" "Pz (particles ?ev ! 2) = 0"
    "Mass demo_lib (particles ?ev ! 2) = 60"
    "BindEnergyLastNucleon demo_lib (target_of ?ev) = 4"
    by (simp_all add: demo_nth2 demo_particle_def Energy_def Px_def Py_def Pz_def Mass_def demo_lib_def)
  have s: "SubtractBindEnergy demo_lib (target_of ?ev) (particles ?ev ! 2) =
      Inr (demo_particle 2212 kIStStableFinalState 1 11 61, \<lparr>fX = 14, fY = 0, fZ = 0, fE = 4\<rparr>)"
    unfolding SubtractBindEnergy_Inr [OF p] Let_def v P_demo
    by (simp add: sqrt_121 demo_nth2 demo_particle_def)
  have c: "corrected demo_lib ?ev 0 = particles ?ev ! 0" "corrected demo_lib ?ev 1 = particles ?ev ! 1"
    "corrected demo_lib ?ev 2 = demo_particle 2212 kIStStableFinalState 1 11 61"
    "bindino_of demo_lib ?ev 2 = bindino demo_lib \<lparr>fX = 14, fY = 0, fZ = 0, fE = 4\<rparr>"
    by (simp_all add: corrected_def bindino_of_def bound_demo s)
  have "pass_from demo_lib ?ev 0 = \<lparr>GetInteraction = demo_interaction, particles =
       [demo_particle 1000260560 (kIStOther 0) (-1) 0 3328,
        demo_particle 2212 kIstNucleonTarget 0 0 60,
        demo_particle 2212 kIStStableFinalState 1 11 61,
        bindino demo_lib \<lparr>fX = 14, fY = 0, fZ = 0, fE = 4\<rparr>]\<rparr>"
  proof -
    have m: "map (corrected demo_lib ?ev) [0, 1, 2] =
        [particles ?ev ! 0, particles ?ev ! 1, demo_particle 2212 kIStStableFinalState 1 11 61]"
      by (simp only: list.map c)
    have f: "filter (bound_nucleon demo_lib ?ev) [0, 1, 2] = [2]"
      using bound_demo [of 0 kIstNucleonTarget 25 65] bound_demo [of 1 kIstNucleonTarget 25 65]
        bound_demo [of 2 kIstNucleonTarget 25 65]
      by (simp only: filter.simps) simp
    show ?thesis
      unfolding pass_from_def len upt_3 m f by (simp add: c(4)) (simp add: demo_event_def)
  qed
  then show ?thesis
    using ProcessEventRecord_wf [OF wf_demo, of demo_lib kIstNucleonTarget 25 65] n by simp
qed

section \<open>The binding correction: conservation, scope and the bindino\<close>

text \<open>
  C1, at the input where the code breaks it. For a bound proton at rest the quotient
  \<open>pmag_new / pmag_old\<close> is a quotient by zero, so the pass yields no corrected nucleon
  and no bindino whose momenta could add up to the original one. (For every nucleon with
  non-zero momentum the sums do add up: \<open>binding_correction_conserves\<close>.)
\<close>
theorem nucleon_at_rest_not_conserved:
  "visit demo_lib 2 (demo_event kIstNucleonTarget 0 60) = Inl NonFinite \<and>
   ProcessEventRecord demo_lib (demo_event kIstNucleonTarget 0 60) = Inl NonFinite"
proof -
  let ?ev = "demo_event kIstNucleonTarget 0 60"
  have len: "length (particles ?ev) = 3" by (simp add: demo_event_def)
  have b: "bound_nucleon demo_lib ?ev 2" by (simp add: bound_demo)
  have p: "P (P4 (particles ?ev ! 2)) = 0" by (simp add: P_demo)
  have "visit demo_lib 2 ?ev = Inl NonFinite"
    using visit_wf [OF wf_demo, of 2 kIstNucleonTarget 0 60 demo_lib] b p by (simp add: len)
  moreover have "\<not> none_at_rest demo_lib ?ev"
    unfolding none_at_rest_iff len using b p by (auto intro: exI [of _ 2])
  ultimately show ?thesis
    using ProcessEventRecord_wf [OF wf_demo, of demo_lib kIstNucleonTarget 0 60] by simp
qed

text \<open>
  C2. On a record whose mother positions are valid and in which no bound nucleon is at
  rest, \<open>ProcessEventRecord\<close> returns a record that holds one more particle for every
  bound nucleon of the input and no other new particle. For the \<open>k\<close>-th bound nucleon
  \<open>p\<close>, at position \<open>i\<close>, the particle at position \<open>i\<close> of the result has the energy
  \<open>E - bindE\<close> and each momentum component of \<open>p\<close> multiplied by
  \<open>scale = sqrt (max 0 (E'\<^sup>2 - m\<^sup>2)) / |p_old|\<close>, and the \<open>k\<close>-th appended particle
  carries \<open>(1 - scale)\<close> times the momentum of \<open>p\<close> and the energy \<open>bindE\<close>. The
  binding energy is \<open>BindEnergyLastNucleon\<close> of the target of the record: the nucleon does
  not enter it.
\<close>
theorem binding_correction_rescales:
  assumes "wf_mothers event_rec" and "none_at_rest lib event_rec"
  shows "\<exists>rec'. ProcessEventRecord lib event_rec = Inr rec' \<and>
     length (particles rec') =
       length (particles event_rec) +
       length (filter (bound_nucleon lib event_rec) [0 ..< length (particles event_rec)]) \<and>
     (\<forall>k < length (filter (bound_nucleon lib event_rec) [0 ..< length (particles event_rec)]).
        let i = filter (bound_nucleon lib event_rec) [0 ..< length (particles event_rec)] ! k;
            p = particles event_rec ! i;
            bindE = BindEnergyLastNucleon lib (target_of event_rec);
            scale = sqrt (max 0 ((Energy p - bindE)\<^sup>2 - (Mass lib p)\<^sup>2)) / P (P4 p);
            pn = particles rec' ! i;
            pb = particles rec' ! (length (particles event_rec) + k)
        in i < length (particles event_rec) \<and> bound_nucleon lib event_rec i \<and>
           Energy pn = Energy p - bindE \<and>
           Px pn = scale * Px p \<and> Py pn = scale * Py p \<and> Pz pn = scale * Pz p \<and>
           Px pb = (1 - scale) * Px p \<and> Py pb = (1 - scale) * Py p \<and>
           Pz pb = (1 - scale) * Pz p \<and>
           Energy pb = bindE)"
proof -
  let ?ps = "particles event_rec" and ?r = "pass_from lib event_rec 0"
  let ?bs = "filter (bound_nucleon lib event_rec) [0 ..< length (particles event_rec)]"
  let ?b = "BindEnergyLastNucleon lib (target_of event_rec)"
  have run: "ProcessEventRecord lib event_rec = Inr ?r"
    using ProcessEventRecord_wf [OF assms(1)] assms(2) by simp
  have len: "length (particles ?r) = length ?ps + length ?bs"
    by (simp add: pass_from_def)
  have each: "let i = ?bs ! k;
            p = ?ps ! i;
            bindE = ?b;
            scale = sqrt (max 0 ((Energy p - bindE)\<^sup>2 - (Mass lib p)\<^sup>2)) / P (P4 p);
            pn = particles ?r ! i;
            pb = particles ?r ! (length ?ps + k)
        in i < length ?ps \<and> bound_nucleon lib event_rec i \<and>
           Energy pn = Energy p - bindE \<and>
           Px pn = scale * Px p \<and> Py pn = scale * Py p \<and> Pz pn = scale * Pz p \<and>
           Px pb = (1 - scale) * Px p \<and> Py pb = (1 - scale) * Py p \<and>
           Pz pb = (1 - scale) * Pz p \<and>
           Energy pb = bindE" if k: "k < length ?bs" for k
  proof -
    define i where "i = ?bs ! k"
    have "i \<in> set ?bs" unfolding i_def using k by (rule nth_mem)
    then have i: "i < length ?ps" and b: "bound_nucleon lib event_rec i" by auto
    have nz: "P (P4 (?ps ! i)) \<noteq> 0"
      using assms(2) i b by (simp add: none_at_rest_iff)
    define scale where
      "scale = sqrt (max 0 ((Energy (?ps ! i) - ?b)\<^sup>2 - (Mass lib (?ps ! i))\<^sup>2)) / P (P4 (?ps ! i))"
    have pn: "particles ?r ! i = (?ps ! i)\<lparr>P4 := \<lparr>fX = scale * Px (?ps ! i),
        fY = scale * Py (?ps ! i), fZ = scale * Pz (?ps ! i), fE = Energy (?ps ! i) - ?b\<rparr>\<rparr>"
      unfolding pass_from_nth [OF i] scale_def by (rule corrected_bound [OF b nz])
    have pb: "particles ?r ! (length ?ps + k) = bindino lib \<lparr>fX = (1 - scale) * Px (?ps ! i),
        fY = (1 - scale) * Py (?ps ! i), fZ = (1 - scale) * Pz (?ps ! i), fE = ?b\<rparr>"
      unfolding pass_from_bindino [OF k] i_def [symmetric] scale_def
      by (rule bindino_of_bound [OF nz])
    show ?thesis
      unfolding Let_def i_def [symmetric] scale_def [symmetric] pn pb
      using i b by (simp add: Energy_def Px_def Py_def Pz_def bindino_def)
  qed
  show ?thesis
    using run len each by (intro exI [of _ ?r]) blast
qed

theorem binding_correction_rescales_witness:
  "wf_mothers (demo_event kIstNucleonTarget 25 65) \<and>
   none_at_rest demo_lib (demo_event kIstNucleonTarget 25 65) \<and>
   (\<exists>rec'. ProcessEventRecord demo_lib (demo_event kIstNucleonTarget 25 65) = Inr rec' \<and>
     length (particles rec') = 4 \<and>
     Energy (particles rec' ! 2) = 61 \<and> Px (particles rec' ! 2) = 11 \<and>
     Py (particles rec' ! 2) = 0 \<and> Pz (particles rec' ! 2) = 0 \<and>
     Px (particles rec' ! 3) = 14 \<and> Py (particles rec' ! 3) = 0 \<and>
     Pz (particles rec' ! 3) = 0 \<and> Energy (particles rec' ! 3) = 4)"
proof -
  let ?ev = "demo_event kIstNucleonTarget 25 65"
  have len: "length (particles ?ev) = 3" by (simp add: demo_event_def)
  have n: "none_at_rest demo_lib ?ev"
    unfolding none_at_rest_iff len using bound_demo [of _ kIstNucleonTarget 25 65]
    by (auto simp: P_demo)
  have v: "Energy (particles ?ev ! 2) = 65" "Px (particles ?ev ! 2) = 25"
    "Py (particles ?ev ! 2) = 0" "Pz (particles ?ev ! 2) = 0"
    "Mass demo_lib (particles ?ev ! 2) = 60"
    "BindEnergyLastNucleon demo_lib (target_of ?ev) = 4"
    by (simp_all add: demo_nth2 demo_particle_def Energy_def Px_def Py_def Pz_def Mass_def demo_lib_def)
  have s: "sqrt (max 0 ((65 - 4)\<^sup>2 - 60\<^sup>2)) / 25 = (11 / 25 :: real)"
    by (simp add: sqrt_121)
  show ?thesis
    using binding_correction_rescales [OF wf_demo n] wf_demo [of kIstNucleonTarget 25 65] n
    unfolding len demo_bound_list Let_def
    by (simp add: v P_demo s) blast
qed

text \<open>
  C3, as amended. On a record whose mother positions are valid and in which no bound
  nucleon is at rest, the pass returns a record in which a particle of the input is
  corrected exactly when it is a proton or neutron, is in the stable final state, and
  has a first mother that is set and is a nucleon target whose own first mother is set
  and is an ion; the correction changes the particle whenever the binding energy is not
  zero, and every other particle is left as it was.
\<close>
theorem binding_correction_scope:
  assumes "wf_mothers event_rec" and "none_at_rest lib event_rec"
  shows "\<exists>rec'. ProcessEventRecord lib event_rec = Inr rec' \<and>
     length (particles event_rec) \<le> length (particles rec') \<and>
     (\<forall>i < length (particles event_rec).
        if IsNeutronOrProton lib (PdgCode (particles event_rec ! i)) \<and>
           Status (particles event_rec ! i) = kIStStableFinalState \<and>
           from_nucleus lib event_rec (particles event_rec ! i)
        then (\<exists>p4. SubtractBindEnergy lib (target_of event_rec) (particles event_rec ! i) =
                      Inr (particles rec' ! i, p4)) \<and>
             (BindEnergyLastNucleon lib (target_of event_rec) \<noteq> 0 \<longrightarrow>
                particles rec' ! i \<noteq> particles event_rec ! i)
        else particles rec' ! i = particles event_rec ! i)"
proof -
  let ?ps = "particles event_rec" and ?r = "pass_from lib event_rec 0"
  have run: "ProcessEventRecord lib event_rec = Inr ?r"
    using ProcessEventRecord_wf [OF assms(1)] assms(2) by simp
  have each: "if IsNeutronOrProton lib (PdgCode (?ps ! i)) \<and>
           Status (?ps ! i) = kIStStableFinalState \<and> from_nucleus lib event_rec (?ps ! i)
        then (\<exists>p4. SubtractBindEnergy lib (target_of event_rec) (?ps ! i) =
                      Inr (particles ?r ! i, p4)) \<and>
             (BindEnergyLastNucleon lib (target_of event_rec) \<noteq> 0 \<longrightarrow>
                particles ?r ! i \<noteq> ?ps ! i)
        else particles ?r ! i = ?ps ! i" if i: "i < length ?ps" for i
  proof (cases "bound_nucleon lib event_rec i")
    case False
    then have "particles ?r ! i = ?ps ! i"
      by (simp add: pass_from_nth [OF i] corrected_def Let_def)
    then show ?thesis
      using False bound_nucleon_iff [OF i, of lib] by auto
  next
    case True
    then have nz: "P (P4 (?ps ! i)) \<noteq> 0"
      using assms(2) i by (simp add: none_at_rest_iff)
    then obtain pn p4 where s: "SubtractBindEnergy lib (target_of event_rec) (?ps ! i) = Inr (pn, p4)"
      by (metis SubtractBindEnergy_Inl sum.exhaust surj_pair)
    have c: "particles ?r ! i = pn"
      using True s by (simp add: pass_from_nth [OF i] corrected_def Let_def)
    have "Energy pn + fE p4 = Energy (?ps ! i)"
      using binding_correction_conserves [OF s] by simp
    moreover have "fE p4 = BindEnergyLastNucleon lib (target_of event_rec)"
      using s unfolding SubtractBindEnergy_Inr [OF nz] by (auto simp: Let_def)
    ultimately have "BindEnergyLastNucleon lib (target_of event_rec) \<noteq> 0 \<longrightarrow> pn \<noteq> ?ps ! i"
      by auto
    then show ?thesis
      using True bound_nucleon_iff [OF i, of lib] s c by simp
  qed
  show ?thesis
    using run pass_from_length [of event_rec lib] each
    by (intro exI [of _ ?r]) simp
qed

theorem binding_correction_scope_witness:
  "wf_mothers (demo_event kIstNucleonTarget 25 65) \<and>
   none_at_rest demo_lib (demo_event kIstNucleonTarget 25 65) \<and>
   (\<exists>rec'. ProcessEventRecord demo_lib (demo_event kIstNucleonTarget 25 65) = Inr rec' \<and>
      particles rec' ! 0 = particles (demo_event kIstNucleonTarget 25 65) ! 0 \<and>
      particles rec' ! 1 = particles (demo_event kIstNucleonTarget 25 65) ! 1 \<and>
      particles rec' ! 2 \<noteq> particles (demo_event kIstNucleonTarget 25 65) ! 2)"
proof -
  let ?ev = "demo_event kIstNucleonTarget 25 65"
  have len: "length (particles ?ev) = 3" by (simp add: demo_event_def)
  have n: "none_at_rest demo_lib ?ev"
    unfolding none_at_rest_iff len using bound_demo [of _ kIstNucleonTarget 25 65]
    by (auto simp: P_demo)
  have b: "BindEnergyLastNucleon demo_lib (target_of ?ev) \<noteq> 0" by (simp add: demo_lib_def)
  have c: "\<not> from_nucleus demo_lib ?ev (particles ?ev ! 0)"
    "\<not> IsNeutronOrProton demo_lib (PdgCode (particles ?ev ! 0))"
    "Status (particles ?ev ! 1) \<noteq> kIStStableFinalState"
    "IsNeutronOrProton demo_lib (PdgCode (particles ?ev ! 2)) \<and>
           Status (particles ?ev ! 2) = kIStStableFinalState \<and>
           from_nucleus demo_lib ?ev (particles ?ev ! 2)"
    by (simp_all add: demo_event_def demo_particle_def demo_lib_def from_nucleus_def Particle_def)
  from binding_correction_scope [OF wf_demo n]
  obtain rec' where r: "ProcessEventRecord demo_lib ?ev = Inr rec'"
    and each: "\<forall>i < 3.
        if IsNeutronOrProton demo_lib (PdgCode (particles ?ev ! i)) \<and>
           Status (particles ?ev ! i) = kIStStableFinalState \<and>
           from_nucleus demo_lib ?ev (particles ?ev ! i)
        then (\<exists>p4. SubtractBindEnergy demo_lib (target_of ?ev) (particles ?ev ! i) =
                      Inr (particles rec' ! i, p4)) \<and>
             (BindEnergyLastNucleon demo_lib (target_of ?ev) \<noteq> 0 \<longrightarrow>
                particles rec' ! i \<noteq> particles ?ev ! i)
        else particles rec' ! i = particles ?ev ! i"
    unfolding len by blast
  have "particles rec' ! 0 = particles ?ev ! 0" using each [rule_format, of 0] c by simp
  moreover have "particles rec' ! 1 = particles ?ev ! 1" using each [rule_format, of 1] c by simp
  moreover have "particles rec' ! 2 \<noteq> particles ?ev ! 2" using each [rule_format, of 2] c b by simp
  ultimately show ?thesis using wf_demo n r by blast
qed

theorem binding_correction_scope_counterexample:
  "IsNeutronOrProton demo_lib (PdgCode (particles (demo_event (kIStOther 0) 25 65) ! 2)) \<and>
   Status (particles (demo_event (kIStOther 0) 25 65) ! 2) = kIStStableFinalState \<and>
   FirstMother (particles (demo_event (kIStOther 0) 25 65) ! 2) = 1 \<and>
   FirstMother (particles (demo_event (kIStOther 0) 25 65) ! 1) = 0 \<and>
   IsIon demo_lib (PdgCode (particles (demo_event (kIStOther 0) 25 65) ! 0)) \<and>
   BindEnergyLastNucleon demo_lib (target_of (demo_event (kIStOther 0) 25 65)) = 4 \<and>
   ProcessEventRecord demo_lib (demo_event (kIStOther 0) 25 65) = Inr (demo_event (kIStOther 0) 25 65)"
proof -
  let ?ev = "demo_event (kIStOther 0) 25 65"
  have len: "length (particles ?ev) = 3" by (simp add: demo_event_def)
  have nb: "\<And>i. i < 3 \<Longrightarrow> \<not> bound_nucleon demo_lib ?ev i"
    by (simp add: bound_demo)
  have n: "none_at_rest demo_lib ?ev"
    unfolding none_at_rest_iff len using nb by simp
  have "pass_from demo_lib ?ev 0 = ?ev"
    using nb by (intro pass_from_unbound) (simp add: len)
  then have "ProcessEventRecord demo_lib ?ev = Inr ?ev"
    using ProcessEventRecord_wf [OF wf_demo, of demo_lib "kIStOther 0" 25 65] n by simp
  then show ?thesis
    by (simp add: demo_event_def demo_particle_def demo_lib_def)
qed

text \<open>
  C8, as amended. Every particle that the pass appends carries the PDG code of the
  bindino, is flagged as stable final state, has no mother and no daughter, sits at the
  origin, and has the four-momentum \<open>((1 - scale) p_old, bindE)\<close> of some bound nucleon
  of the input. The invariant mass squared of that four-momentum is
  \<open>bindE\<^sup>2 - (1 - scale)\<^sup>2 |p_old|\<^sup>2\<close>, which need not be zero.
\<close>
theorem bindino_is_final_state:
  assumes "wf_mothers event_rec" and "none_at_rest lib event_rec"
  shows "\<exists>rec'. ProcessEventRecord lib event_rec = Inr rec' \<and>
     (\<forall>q \<in> set (drop (length (particles event_rec)) (particles rec')).
        PdgCode q = kPdgBindino lib \<and> Status q = kIStStableFinalState \<and>
        FirstMother q = -1 \<and> LastMother q = -1 \<and>
        FirstDaughter q = -1 \<and> LastDaughter q = -1 \<and>
        V4 q = \<lparr>fX = 0, fY = 0, fZ = 0, fE = 0\<rparr> \<and>
        (\<exists>i < length (particles event_rec). \<exists>scale.
           bound_nucleon lib event_rec i \<and>
           scale = sqrt (max 0 ((Energy (particles event_rec ! i)
                                   - BindEnergyLastNucleon lib (target_of event_rec))\<^sup>2
                                - (Mass lib (particles event_rec ! i))\<^sup>2))
                     / P (P4 (particles event_rec ! i)) \<and>
           Px q = (1 - scale) * Px (particles event_rec ! i) \<and>
           Py q = (1 - scale) * Py (particles event_rec ! i) \<and>
           Pz q = (1 - scale) * Pz (particles event_rec ! i) \<and>
           Energy q = BindEnergyLastNucleon lib (target_of event_rec) \<and>
           Mag2 (P4 q) = (BindEnergyLastNucleon lib (target_of event_rec))\<^sup>2
                          - (1 - scale)\<^sup>2 * (P (P4 (particles event_rec ! i)))\<^sup>2))"
proof -
  let ?ps = "particles event_rec" and ?r = "pass_from lib event_rec 0"
  let ?b = "BindEnergyLastNucleon lib (target_of event_rec)"
  have run: "ProcessEventRecord lib event_rec = Inr ?r"
    using ProcessEventRecord_wf [OF assms(1)] assms(2) by simp
  have "PdgCode q = kPdgBindino lib \<and> Status q = kIStStableFinalState \<and>
        FirstMother q = -1 \<and> LastMother q = -1 \<and>
        FirstDaughter q = -1 \<and> LastDaughter q = -1 \<and>
        V4 q = \<lparr>fX = 0, fY = 0, fZ = 0, fE = 0\<rparr> \<and>
        (\<exists>i < length ?ps. \<exists>scale.
           bound_nucleon lib event_rec i \<and>
           scale = sqrt (max 0 ((Energy (?ps ! i) - ?b)\<^sup>2 - (Mass lib (?ps ! i))\<^sup>2))
                     / P (P4 (?ps ! i)) \<and>
           Px q = (1 - scale) * Px (?ps ! i) \<and>
           Py q = (1 - scale) * Py (?ps ! i) \<and>
           Pz q = (1 - scale) * Pz (?ps ! i) \<and>
           Energy q = ?b \<and>
           Mag2 (P4 q) = ?b\<^sup>2 - (1 - scale)\<^sup>2 * (P (P4 (?ps ! i)))\<^sup>2)"
    if "q \<in> set (drop (length ?ps) (particles ?r))" for q
  proof -
    from that obtain i where i: "i < length ?ps" "bound_nucleon lib event_rec i"
      and q: "q = bindino_of lib event_rec i"
      unfolding pass_from_drop by auto
    have nz: "P (P4 (?ps ! i)) \<noteq> 0"
      using assms(2) i by (simp add: none_at_rest_iff)
    define scale where "scale = sqrt (max 0 ((Energy (?ps ! i) - ?b)\<^sup>2 - (Mass lib (?ps ! i))\<^sup>2))
                     / P (P4 (?ps ! i))"
    have qq: "q = bindino lib \<lparr>fX = (1 - scale) * Px (?ps ! i), fY = (1 - scale) * Py (?ps ! i),
        fZ = (1 - scale) * Pz (?ps ! i), fE = ?b\<rparr>"
      unfolding q scale_def by (rule bindino_of_bound [OF nz])
    have m: "Mag2 (P4 q) = ?b\<^sup>2 - (1 - scale)\<^sup>2 * (P (P4 (?ps ! i)))\<^sup>2"
      unfolding qq
      by (simp add: Mag2_def bindino_def power2_eq_square P_square Px_def Py_def Pz_def
          algebra_simps)
    have "Px q = (1 - scale) * Px (?ps ! i) \<and> Py q = (1 - scale) * Py (?ps ! i) \<and>
          Pz q = (1 - scale) * Pz (?ps ! i) \<and> Energy q = ?b"
      unfolding qq by (simp add: bindino_def Px_def Py_def Pz_def Energy_def)
    moreover have "PdgCode q = kPdgBindino lib \<and> Status q = kIStStableFinalState \<and>
        FirstMother q = -1 \<and> LastMother q = -1 \<and>
        FirstDaughter q = -1 \<and> LastDaughter q = -1 \<and>
        V4 q = \<lparr>fX = 0, fY = 0, fZ = 0, fE = 0\<rparr>"
      unfolding qq by (simp add: bindino_def)
    ultimately show ?thesis
      using i m scale_def by blast
  qed
  then show ?thesis
    using run by (intro exI [of _ ?r]) blast
qed

theorem bindino_is_final_state_counterexample:
  "\<exists>rec'. ProcessEventRecord demo_lib (demo_event kIstNucleonTarget 25 65) = Inr rec' \<and>
      length (particles rec') = 4 \<and>
      PdgCode (particles rec' ! 3) = kPdgBindino demo_lib \<and>
      P4 (particles rec' ! 3) = \<lparr>fX = 14, fY = 0, fZ = 0, fE = 4\<rparr> \<and>
      Mag2 (P4 (particles rec' ! 3)) = - 180"
  unfolding demo_pass by (simp add: bindino_def Mag2_def)

theorem bindino_is_final_state_witness:
  "wf_mothers (demo_event kIstNucleonTarget 25 65) \<and>
   none_at_rest demo_lib (demo_event kIstNucleonTarget 25 65) \<and>
   (\<exists>rec'. ProcessEventRecord demo_lib (demo_event kIstNucleonTarget 25 65) = Inr rec' \<and>
      Status (particles rec' ! 3) = kIStStableFinalState \<and>
      PdgCode (particles rec' ! 3) = kPdgBindino demo_lib)"
proof -
  let ?ev = "demo_event kIstNucleonTarget 25 65"
  have len: "length (particles ?ev) = 3" by (simp add: demo_event_def)
  have n: "none_at_rest demo_lib ?ev"
    unfolding none_at_rest_iff len using bound_demo [of _ kIstNucleonTarget 25 65]
    by (auto simp: P_demo)
  from bindino_is_final_state [OF wf_demo n]
  obtain rec' where r: "ProcessEventRecord demo_lib ?ev = Inr rec'"
    and a: "\<forall>q \<in> set (drop 3 (particles rec')).
        PdgCode q = kPdgBindino demo_lib \<and> Status q = kIStStableFinalState"
    unfolding len by blast
  have "length (particles rec') = 4" using r unfolding demo_pass by auto
  then have "drop 3 (particles rec') = particles rec' ! 3 # drop (Suc 3) (particles rec')"
    using Cons_nth_drop_Suc [of 3 "particles rec'"] by simp
  then have "particles rec' ! 3 \<in> set (drop 3 (particles rec'))"
    by simp
  then show ?thesis using wf_demo n r a by blast
qed

text \<open>
  C10. The rescale divides by the old momentum magnitude without a zero guard: the
  correction of a nucleon has a value exactly when that magnitude is positive, it has
  none exactly when the nucleon is at rest, and on a record with valid mother positions
  the pass runs into the division by zero exactly when some bound nucleon is at rest.
\<close>
theorem rescale_needs_momentum:
  "((\<exists>r. SubtractBindEnergy lib target p = Inr r) \<longleftrightarrow> 0 < P (P4 p)) \<and>
   (SubtractBindEnergy lib target p = Inl NonFinite \<longleftrightarrow> Px p = 0 \<and> Py p = 0 \<and> Pz p = 0) \<and>
   (wf_mothers event_rec \<longrightarrow>
      (ProcessEventRecord lib event_rec = Inl NonFinite \<longleftrightarrow>
         (\<exists>i < length (particles event_rec). bound_nucleon lib event_rec i \<and>
            Px (particles event_rec ! i) = 0 \<and> Py (particles event_rec ! i) = 0 \<and>
            Pz (particles event_rec ! i) = 0)))"
proof (intro conjI impI)
  have "(\<exists>r. SubtractBindEnergy lib target p = Inr r) \<longleftrightarrow> P (P4 p) \<noteq> 0"
    by (auto simp: SubtractBindEnergy_def Let_def)
  then show "(\<exists>r. SubtractBindEnergy lib target p = Inr r) \<longleftrightarrow> 0 < P (P4 p)"
    using P_nonneg [of "P4 p"] by (simp add: less_le)
  show "SubtractBindEnergy lib target p = Inl NonFinite \<longleftrightarrow> Px p = 0 \<and> Py p = 0 \<and> Pz p = 0"
    by (simp add: SubtractBindEnergy_Inl P_zero_iff Px_def Py_def Pz_def)
next
  assume wf: "wf_mothers event_rec"
  show "ProcessEventRecord lib event_rec = Inl NonFinite \<longleftrightarrow>
         (\<exists>i < length (particles event_rec). bound_nucleon lib event_rec i \<and>
            Px (particles event_rec ! i) = 0 \<and> Py (particles event_rec ! i) = 0 \<and>
            Pz (particles event_rec ! i) = 0)"
    unfolding ProcessEventRecord_wf [OF wf]
    by (auto simp: none_at_rest_def at_rest_iff)
qed

theorem rescale_needs_momentum_witness:
  "wf_mothers (demo_event kIstNucleonTarget 0 60) \<and>
   bound_nucleon demo_lib (demo_event kIstNucleonTarget 0 60) 2 \<and>
   Px (particles (demo_event kIstNucleonTarget 0 60) ! 2) = 0 \<and>
   Py (particles (demo_event kIstNucleonTarget 0 60) ! 2) = 0 \<and>
   Pz (particles (demo_event kIstNucleonTarget 0 60) ! 2) = 0 \<and>
   SubtractBindEnergy demo_lib (target_of (demo_event kIstNucleonTarget 0 60))
     (particles (demo_event kIstNucleonTarget 0 60) ! 2) = Inl NonFinite \<and>
   ProcessEventRecord demo_lib (demo_event kIstNucleonTarget 0 60) = Inl NonFinite"
proof -
  let ?ev = "demo_event kIstNucleonTarget 0 60"
  have len: "length (particles ?ev) = 3" by (simp add: demo_event_def)
  have b: "bound_nucleon demo_lib ?ev 2" by (simp add: bound_demo)
  have z: "Px (particles ?ev ! 2) = 0 \<and> Py (particles ?ev ! 2) = 0 \<and> Pz (particles ?ev ! 2) = 0"
    by (simp add: demo_nth2 demo_particle_def Px_def Py_def Pz_def)
  have "\<exists>i < length (particles ?ev). bound_nucleon demo_lib ?ev i \<and>
      Px (particles ?ev ! i) = 0 \<and> Py (particles ?ev ! i) = 0 \<and> Pz (particles ?ev ! i) = 0"
    unfolding len using b z by (intro exI [of _ 2]) simp
  then show ?thesis
    using rescale_needs_momentum [of demo_lib "target_of ?ev" "particles ?ev ! 2" ?ev]
      wf_demo [of kIstNucleonTarget 0 60] b z
    by blast
qed

section \<open>BardinIMDRadCorPXSec\<close>

text \<open>
  Conventions/Constants.h is not at hand. \<open>kPi\<close> is the circle constant; the Fermi
  constant squared, the electron mass and its square, the muon mass squared and the
  fine structure constant are parameters of the model.
\<close>

definition kPi :: real where
  "kPi = pi"

record Constants =
  kGF_2 :: real
  kElectronMass :: real
  kElectronMass_2 :: real
  kMuonMass_2 :: real
  kAem :: real

text \<open>
  \<open>Range1D_t\<close>, the scalar function interface \<open>GSFunc\<close> with the parameter ranges it
  inherits from \<open>GFunc\<close>, and the integrator interface \<open>IntegratorI\<close>, which is handed
  the function object and returns a number.
\<close>

record Range1D_t =
  min_t :: real
  max_t :: real

record GSFunc =
  nds :: nat
  fParams :: "nat \<Rightarrow> (string \<times> Range1D_t) option"
  call :: "real list \<Rightarrow> fault + real"

definition SetParam :: "nat \<Rightarrow> string \<Rightarrow> Range1D_t \<Rightarrow> GSFunc \<Rightarrow> GSFunc" where
  "SetParam i name rng func = func\<lparr>fParams := (fParams func)(i \<mapsto> (name, rng))\<rparr>"

type_synonym IntegratorI = "GSFunc \<Rightarrow> fault + real"

record BardinIMDRadCorPXSec =
  fIntegrator :: "IntegratorI option"

text \<open>
  \<open>BardinIMDRadCorIntegrand::operator()\<close>. The two early returns come first, as in the
  source; the guard after them marks the quotient and the logarithm that follow.
\<close>

definition BardinIMDRadCorIntegrand_call :: "real \<Rightarrow> real list \<Rightarrow> fault + real" where
  "BardinIMDRadCorIntegrand_call fZ' param =
     (case param of
        [] \<Rightarrow> Inl OutOfRange
      | t # rest \<Rightarrow>
          if t = 0 then Inr 0
          else if t * fZ' \<ge> 1 then Inr 0
          else if 1 - fZ' * t \<le> 0 \<or> t = 0 then Inl NonFinite
          else Inr (ln (1 - fZ' * t) / t))"

definition BardinIMDRadCorIntegrand :: "real \<Rightarrow> GSFunc" where
  "BardinIMDRadCorIntegrand z =
     \<lparr>nds = 1, fParams = Map.empty, call = BardinIMDRadCorIntegrand_call z\<rparr>"

definition Li2 :: "BardinIMDRadCorPXSec \<Rightarrow> real \<Rightarrow> fault + real" where
  "Li2 this z =
     (let epsilon = 1 / 100;
          t = \<lparr>min_t = epsilon, max_t = 1 - epsilon\<rparr>;
          func = SetParam 0 ''t'' t (BardinIMDRadCorIntegrand z)
      in case fIntegrator this of
           None \<Rightarrow> Inl NullPointer
         | Some integrator \<Rightarrow> integrator func)"

definition C :: "int \<Rightarrow> int \<Rightarrow> real \<Rightarrow> real" where
  "C i k r =
     (if i = 1 then
        (if k = -3 then - 0.19444444 * r ^ 3
         else if k = -2 then (0.083333333 + 0.29166667 * r) * r ^ 2
         else if k = -1 then - 0.58333333 * r - 0.5 * r ^ 2 - r ^ 3 / 6
         else if k = 0 then - 1.30555560 + 3.125 * r + 0.375 * r ^ 2
         else if k = 1 then - 0.91666667 - 0.25 * r
         else if k = 2 then 0.041666667
         else 0)
      else if i = 2 then
        (if k = -3 then 0
         else if k = -2 then 0.5 * r ^ 2
         else if k = -1 then 0.5 * r - 2 * r ^ 2
         else if k = 0 then 0.25 - 0.75 * r + 1.5 * r ^ 2
         else if k = 1 then 0.5
         else if k = 2 then 0
         else 0)
      else if i = 3 then
        (if k = -3 then 0.16666667 * r ^ 3
         else if k = -2 then 0.25 * r ^ 2 * (1 - r)
         else if k = -1 then r - 0.5 * r ^ 2
         else if k = 0 then 0.66666667
         else if k = 1 then 0
         else if k = 2 then 0
         else 0)
      else if i = 4 then
        (if k = -3 then 0
         else if k = -2 then r ^ 2
         else if k = -1 then r * (1 - 4 * r)
         else if k = 0 then 1.5 * r ^ 2
         else if k = 1 then 1
         else if k = 2 then 0
         else 0)
      else if i = 5 then
        (if k = -3 then 0.16666667 * r ^ 3
         else if k = -2 then - 0.25 * r ^ 2 * (1 + r)
         else if k = -1 then 0.5 * r * (1 + 3 * r)
         else if k = 0 then - 1.9166667 + 2.25 * r - 1.5 * r ^ 2
         else if k = 1 then - 0.5
         else if k = 2 then 0
         else 0)
      else if i = 6 then
        (if k = -3 then 0
         else if k = -2 then 0.16666667 * r ^ 2
         else if k = -1 then - 0.25 * r * (r + 0.33333333)
         else if k = 0 then 1.25 * (r + 0.33333333)
         else if k = 1 then 0.5
         else if k = 2 then 0
         else 0)
      else 0)"

text \<open>
  \<open>P\<close> of the cross section class (the name \<open>P\<close> is taken by the four-vector): the sum
  of \<open>C(i,k,r) y^k\<close> for \<open>k\<close> from \<open>kmin = -3\<close> to \<open>kmax = 2\<close>.
\<close>

definition P_sum :: "int \<Rightarrow> real \<Rightarrow> real \<Rightarrow> real" where
  "P_sum i r y =
     (let kmin = -3; kmax = 2
      in foldl (\<lambda>p k. p + C i k r * (y powi k)) 0 [kmin .. kmax])"

text \<open>
  The quotients, negative powers and logarithms of \<open>Fa\<close> have a value when the divisor
  is not zero and the argument of the logarithm is positive: one condition for each of
  them, in the order of the source.
\<close>

definition Fa_finite :: "real \<Rightarrow> real \<Rightarrow> real \<Rightarrow> bool" where
  "Fa_finite re r y =
     (y \<noteq> 0 \<and> r \<noteq> 0 \<and>
      r * re \<noteq> 0 \<and> 0 < y * y / (r * re) \<and> 0 < 1 - r / y \<and>
      0 < y / r \<and> 0 < 1 - y \<and>
      1 - y \<noteq> 0 \<and>
      0 < 1 - r \<and>
      1 - r \<noteq> 0 \<and>
      0 < (y - r) / (1 - r) \<and>
      0 < r \<and> 0 < re \<and> 0 < y)"

definition Fa :: "BardinIMDRadCorPXSec \<Rightarrow> real \<Rightarrow> real \<Rightarrow> real \<Rightarrow> fault + real" where
  "Fa this re r y =
     (if \<not> Fa_finite re r y then Inl NonFinite
      else
        let y2 = y * y;
            rre = r * re;
            r_y = r / y;
            y_r = y / r
        in case Li2 this r of Inl e \<Rightarrow> Inl e | Inr li2_r \<Rightarrow>
           (case Li2 this y of Inl e \<Rightarrow> Inl e | Inr li2_y \<Rightarrow>
           (case Li2 this ((r - y) / (1 - y)) of Inl e \<Rightarrow> Inl e | Inr li2_a \<Rightarrow>
           (case Li2 this ((1 - r_y) / (1 - r)) of Inl e \<Rightarrow> Inl e | Inr li2_b \<Rightarrow>
           (case Li2 this ((y - r) / (1 - r)) of Inl e \<Rightarrow> Inl e | Inr li2_c \<Rightarrow>
              Inr ((1 - r) * (ln (y2 / rre) * ln (1 - r_y) +
                              ln y_r * ln (1 - y) -
                              li2_r +
                              li2_y +
                              li2_a +
                              1.5 * (1 - r) * ln (1 - r))
                   +
                   0.5 * (1 + 3 * r) * (li2_b -
                                        li2_c -
                                        ln y_r * ln ((y - r) / (1 - r)))
                   +
                   P_sum 1 r y -
                   P_sum 2 r y * ln r -
                   P_sum 3 r y * ln re +
                   P_sum 4 r y * ln y +
                   P_sum 5 r y * ln (1 - y) +
                   P_sum 6 r y * (1 - r_y) * ln (1 - r_y)))))))"

definition ValidProcess :: "Interaction \<Rightarrow> bool" where
  "ValidProcess interaction =
     (if TestBit interaction kISkipProcessChk then True else True)"

definition ValidKinematics :: "Constants \<Rightarrow> Interaction \<Rightarrow> bool" where
  "ValidKinematics c interaction =
     (if TestBit interaction kISkipKinematicChk then True
      else
        let E = GetProbeE (GetInitialState interaction);
            s = kElectronMass_2 c + 2 * kElectronMass c * E
        in if s < kMuonMass_2 c then False else True)"

definition XSec :: "BardinIMDRadCorPXSec \<Rightarrow> Constants \<Rightarrow> Interaction \<Rightarrow> fault + real" where
  "XSec this c interaction =
     (if \<not> ValidProcess interaction then Inr 0
      else if \<not> ValidKinematics c interaction then Inr 0
      else
        let E = GetProbeE (GetInitialState interaction) in
        if E = 0 \<or> kElectronMass_2 c = 0 then Inl NonFinite
        else
          let sig0 = kGF_2 c * kElectronMass c * E / kPi;
              re = 0.5 * kElectronMass c / E;
              r = (kMuonMass_2 c / kElectronMass_2 c) * re;
              y = 1 - GetKinematics_y interaction;
              ymin = r + re
          in if 1 + re = 0 then Inl NonFinite
             else
               let e = 1 / 100000;
                   ymax = min (1 + re + r * re / (1 + re)) (1 - e)
               in if y < ymin \<or> y > ymax then Inr 0
                  else
                    (case Fa this re r y of
                       Inl e \<Rightarrow> Inl e
                     | Inr fa \<Rightarrow>
                         let dsig_dy = 2 * sig0 * (1 - r + (kAem c / kPi) * fa)
                         in if TestBit interaction kIAssumeFreeNucleon then Inr dsig_dy
                            else Inr (dsig_dy *
                                   of_int (Z (GetTarget (GetInitialState interaction))))))"

text \<open>
  \<open>Configure\<close> and \<open>LoadSubAlg\<close>. \<open>Algorithm::SubAlg\<close> and the configuration it reads
  are not at hand: what the two keys resolve to is a parameter, an algorithm of some
  kind or nothing. The dynamic cast keeps an integrator and turns anything else into
  the null pointer; the assertion then stops the configuration.
\<close>

datatype Algorithm = Integrator IntegratorI | OtherAlgorithm string

definition dynamic_cast_IntegratorI :: "Algorithm option \<Rightarrow> IntegratorI option" where
  "dynamic_cast_IntegratorI alg =
     (case alg of Some (Integrator integrator) \<Rightarrow> Some integrator | _ \<Rightarrow> None)"

definition LoadSubAlg ::
  "(string \<Rightarrow> string \<Rightarrow> Algorithm option) \<Rightarrow> BardinIMDRadCorPXSec
     \<Rightarrow> fault + BardinIMDRadCorPXSec" where
  "LoadSubAlg SubAlg this =
     (let this0 = this\<lparr>fIntegrator := None\<rparr>;
          this1 = this0\<lparr>fIntegrator :=
                    dynamic_cast_IntegratorI
                      (SubAlg ''integrator-alg-name'' ''integrator-param-set'')\<rparr>
      in if fIntegrator this1 = None then Inl AssertionFailed else Inr this1)"

definition Configure ::
  "(string \<Rightarrow> string \<Rightarrow> Algorithm option) \<Rightarrow> BardinIMDRadCorPXSec
     \<Rightarrow> fault + BardinIMDRadCorPXSec" where
  "Configure SubAlg this = LoadSubAlg SubAlg this"

section \<open>The allowed kinematics of the cross section\<close>

text \<open>
  The constants are physical when the electron mass is positive, \<open>kElectronMass_2\<close> is
  its square and the muon is heavier than the electron. \<open>re_of\<close>, \<open>r_of\<close>,
  \<open>ymin_of\<close> and \<open>ymax_of\<close> are the local variables \<open>re\<close>, \<open>r\<close>, \<open>ymin\<close> and
  \<open>ymax\<close> of \<open>XSec\<close> as functions of the probe energy.
\<close>

definition physical :: "Constants \<Rightarrow> bool" where
  "physical c =
     (0 < kElectronMass c \<and> kElectronMass_2 c = kElectronMass c * kElectronMass c \<and>
      kElectronMass_2 c < kMuonMass_2 c)"

definition ProbeE :: "Interaction \<Rightarrow> real" where
  "ProbeE interaction = GetProbeE (GetInitialState interaction)"

definition re_of :: "Constants \<Rightarrow> real \<Rightarrow> real" where
  "re_of c E = 0.5 * kElectronMass c / E"

definition r_of :: "Constants \<Rightarrow> real \<Rightarrow> real" where
  "r_of c E = (kMuonMass_2 c / kElectronMass_2 c) * re_of c E"

definition ymin_of :: "Constants \<Rightarrow> real \<Rightarrow> real" where
  "ymin_of c E = r_of c E + re_of c E"

definition ymax_of :: "Constants \<Rightarrow> real \<Rightarrow> real" where
  "ymax_of c E =
     min (1 + re_of c E + r_of c E * re_of c E / (1 + re_of c E)) (1 - 1 / 100000)"

definition below_threshold :: "Constants \<Rightarrow> Interaction \<Rightarrow> bool" where
  "below_threshold c interaction =
     (kElectronMass_2 c + 2 * kElectronMass c * ProbeE interaction < kMuonMass_2 c)"

definition y_allowed :: "Constants \<Rightarrow> Interaction \<Rightarrow> bool" where
  "y_allowed c interaction =
     (ymin_of c (ProbeE interaction) \<le> 1 - GetKinematics_y interaction \<and>
      1 - GetKinematics_y interaction \<le> ymax_of c (ProbeE interaction))"

lemma ValidKinematics_iff:
  "ValidKinematics c interaction \<longleftrightarrow>
     TestBit interaction kISkipKinematicChk \<or> \<not> below_threshold c interaction"
  by (simp add: ValidKinematics_def below_threshold_def ProbeE_def Let_def)

lemma physical_pos:
  assumes "physical c" and "0 < E"
  shows "0 < re_of c E" and "0 < r_of c E" and "0 < kElectronMass_2 c" and "0 < kMuonMass_2 c"
proof -
  show m2: "0 < kElectronMass_2 c" using assms(1) by (auto simp: physical_def)
  then show mu: "0 < kMuonMass_2 c" using assms(1) unfolding physical_def by linarith
  show re: "0 < re_of c E" using assms by (simp add: physical_def re_of_def)
  show "0 < r_of c E" using re m2 mu by (simp add: r_of_def)
qed

lemma XSec_window_finite:
  assumes "ProbeE interaction \<noteq> 0" and "kElectronMass_2 c \<noteq> 0"
    and "1 + re_of c (ProbeE interaction) \<noteq> 0" and "ValidKinematics c interaction"
  shows "XSec this c interaction =
     (if \<not> y_allowed c interaction then Inr 0
      else
        (case Fa this (re_of c (ProbeE interaction)) (r_of c (ProbeE interaction))
                 (1 - GetKinematics_y interaction) of
           Inl e \<Rightarrow> Inl e
         | Inr fa \<Rightarrow>
             let dsig_dy = 2 * (kGF_2 c * kElectronMass c * ProbeE interaction / kPi) *
                   (1 - r_of c (ProbeE interaction) + (kAem c / kPi) * fa)
             in if TestBit interaction kIAssumeFreeNucleon then Inr dsig_dy
                else Inr (dsig_dy * of_int (Z (GetTarget (GetInitialState interaction))))))"
proof -
  note d = XSec_def [of this c interaction, unfolded Let_def, folded ProbeE_def,
      folded re_of_def, folded r_of_def, folded ymin_of_def ymax_of_def]
  show ?thesis
    unfolding d y_allowed_def using assms
    by (auto simp add: ValidProcess_def Let_def split: sum.splits)
qed

lemma XSec_window:
  assumes "physical c" and "0 < ProbeE interaction" and "ValidKinematics c interaction"
  shows "XSec this c interaction =
     (if \<not> y_allowed c interaction then Inr 0
      else
        (case Fa this (re_of c (ProbeE interaction)) (r_of c (ProbeE interaction))
                 (1 - GetKinematics_y interaction) of
           Inl e \<Rightarrow> Inl e
         | Inr fa \<Rightarrow>
             let dsig_dy = 2 * (kGF_2 c * kElectronMass c * ProbeE interaction / kPi) *
                   (1 - r_of c (ProbeE interaction) + (kAem c / kPi) * fa)
             in if TestBit interaction kIAssumeFreeNucleon then Inr dsig_dy
                else Inr (dsig_dy * of_int (Z (GetTarget (GetInitialState interaction))))))"
proof -
  have "1 + re_of c (ProbeE interaction) \<noteq> 0"
    "ProbeE interaction \<noteq> 0" "kElectronMass_2 c \<noteq> 0"
    using physical_pos [OF assms(1,2)] assms(2) by simp_all
  then show ?thesis
    using XSec_window_finite assms(3) by blast
qed

lemma window_empty_below_threshold:
  assumes "physical c" and "0 < ProbeE interaction" and "below_threshold c interaction"
  shows "\<not> y_allowed c interaction"
proof -
  let ?E = "ProbeE interaction" and ?m = "kElectronMass c" and ?mu2 = "kMuonMass_2 c"
  have m: "0 < ?m" and m2: "kElectronMass_2 c = ?m * ?m" using assms(1) by (simp_all add: physical_def)
  have lt: "2 * ?m * ?E < ?mu2 + ?m * ?m"
    using assms(3) m unfolding below_threshold_def m2
    by (smt (verit) mult_pos_pos)
  have "ymin_of c ?E = (?mu2 + ?m * ?m) / (2 * ?m * ?E)"
    using m assms(2) unfolding ymin_of_def r_of_def re_of_def m2
    by (simp add: field_simps)
  moreover have "1 < (?mu2 + ?m * ?m) / (2 * ?m * ?E)"
    using lt m assms(2) by simp
  moreover have "ymax_of c ?E < 1" by (simp add: ymax_of_def)
  ultimately show ?thesis
    unfolding y_allowed_def by linarith
qed

lemma probe_positive:
  assumes "physical c" and "ValidKinematics c interaction"
    and "\<not> TestBit interaction kISkipKinematicChk"
  shows "0 < ProbeE interaction"
proof -
  have "kMuonMass_2 c \<le> kElectronMass_2 c + 2 * kElectronMass c * ProbeE interaction"
    using assms(2,3) by (simp add: ValidKinematics_iff below_threshold_def)
  then have "0 < kElectronMass c * ProbeE interaction"
    using assms(1) unfolding physical_def by linarith
  then show ?thesis
    using assms(1) by (simp add: physical_def zero_less_mult_iff)
qed

text \<open>
  An integrator samples in range when it returns a value for every function that has a
  value at every point of the range of its first parameter.
\<close>

definition samples_in_range :: "IntegratorI \<Rightarrow> bool" where
  "samples_in_range integrator =
     (\<forall>func name rng.
        fParams func 0 = Some (name, rng) \<and>
        (\<forall>t. min_t rng \<le> t \<and> t \<le> max_t rng \<longrightarrow> (\<exists>v. call func [t] = Inr v))
        \<longrightarrow> (\<exists>v. integrator func = Inr v))"

lemma integrand_value:
  "BardinIMDRadCorIntegrand_call z (t # rest) =
     Inr (if t = 0 \<or> 1 \<le> t * z then 0 else ln (1 - z * t) / t)"
  by (simp add: BardinIMDRadCorIntegrand_call_def mult.commute)

lemma Li2_bound:
  assumes "fIntegrator this = Some integrator"
  shows "Li2 this z =
     integrator (SetParam 0 ''t'' \<lparr>min_t = 1 / 100, max_t = 1 - 1 / 100\<rparr>
                   (BardinIMDRadCorIntegrand z))"
  using assms by (simp add: Li2_def Let_def)

lemma Li2_value:
  assumes "fIntegrator this = Some integrator" and "samples_in_range integrator"
  shows "\<exists>v. Li2 this z = Inr v"
proof -
  let ?func = "SetParam 0 ''t'' \<lparr>min_t = 1 / 100, max_t = 1 - 1 / 100\<rparr> (BardinIMDRadCorIntegrand z)"
  have "fParams ?func 0 = Some (''t'', \<lparr>min_t = 1 / 100, max_t = 1 - 1 / 100\<rparr>)"
    by (simp add: SetParam_def)
  moreover have "\<forall>t. \<exists>v. call ?func [t] = Inr v"
    by (simp add: SetParam_def BardinIMDRadCorIntegrand_def integrand_value)
  ultimately have "\<exists>v. integrator ?func = Inr v"
    using assms(2) unfolding samples_in_range_def by blast
  then show ?thesis by (simp add: Li2_bound [OF assms(1)])
qed

lemma Fa_value:
  assumes "Fa_finite re r y" and "\<And>z. \<exists>v. Li2 this z = Inr v"
  shows "\<exists>v. Fa this re r y = Inr v"
proof -
  obtain a where a: "Li2 this r = Inr a" using assms(2) by blast
  obtain b where b: "Li2 this y = Inr b" using assms(2) by blast
  obtain c where c: "Li2 this ((r - y) / (1 - y)) = Inr c" using assms(2) by blast
  obtain d where d: "Li2 this ((1 - r / y) / (1 - r)) = Inr d" using assms(2) by blast
  obtain e where e: "Li2 this ((y - r) / (1 - r)) = Inr e" using assms(2) by blast
  show ?thesis
    unfolding Fa_def Let_def using assms(1) by (simp add: a b c d e)
qed

lemma Fa_finite_window:
  assumes "physical c" and "0 < ProbeE interaction" and "y_allowed c interaction"
  shows "Fa_finite (re_of c (ProbeE interaction)) (r_of c (ProbeE interaction))
           (1 - GetKinematics_y interaction)"
proof -
  define re r y where "re = re_of c (ProbeE interaction)" and "r = r_of c (ProbeE interaction)"
    and "y = 1 - GetKinematics_y interaction"
  have re: "0 < re" and r: "0 < r"
    using physical_pos [OF assms(1,2)] by (simp_all add: re_def r_def)
  have lo: "r + re \<le> y" and hi: "y \<le> 1 - 1 / 100000"
    using assms(3) by (simp_all add: y_allowed_def ymin_of_def ymax_of_def re_def r_def y_def)
  have y: "0 < y" and ry: "r < y" and y1: "y < 1" and r1: "r < 1"
    using re r lo hi by linarith+
  have "0 < y * y / (r * re)" using y r re by simp
  moreover have "0 < 1 - r / y" using ry y by simp
  moreover have "0 < y / r" using y r by simp
  moreover have "0 < (y - r) / (1 - r)" using ry r1 by simp
  ultimately have "Fa_finite re r y"
    unfolding Fa_finite_def using y r re y1 r1 by simp
  then show ?thesis by (simp add: re_def r_def y_def)
qed

section \<open>Example constants, probes and integrators\<close>

text \<open>
  Constants in units of the electron mass, with a muon of mass 200; a probe on iron with
  its energy, inelasticity and flags left open; the midpoint rule as an integrator; and
  a configuration that resolves the two integrator keys to a given algorithm.
\<close>

definition midpoint_rule :: IntegratorI where
  "midpoint_rule func =
     (case fParams func 0 of
        None \<Rightarrow> Inl OutOfRange
      | Some (name, rng) \<Rightarrow>
          if max_t rng < min_t rng then Inr 0
          else (case call func [(min_t rng + max_t rng) / 2] of
                  Inl e \<Rightarrow> Inl e
                | Inr v \<Rightarrow> Inr ((max_t rng - min_t rng) * v)))"

definition demo_constants :: Constants where
  "demo_constants = \<lparr>kGF_2 = 1, kElectronMass = 1, kElectronMass_2 = 1,
     kMuonMass_2 = 40000, kAem = 1 / 137\<rparr>"

definition demo_probe :: "real \<Rightarrow> real \<Rightarrow> InteractionBit set \<Rightarrow> Interaction" where
  "demo_probe E y bits = \<lparr>GetInitialState = \<lparr>GetTarget = \<lparr>Z = 26\<rparr>, GetProbeE = E\<rparr>,
     GetKinematics_y = y, fBits = bits\<rparr>"

definition demo_registry :: "Algorithm option \<Rightarrow> string \<Rightarrow> string \<Rightarrow> Algorithm option" where
  "demo_registry alg name param_set =
     (if name = ''integrator-alg-name'' \<and> param_set = ''integrator-param-set'' then alg
      else None)"

lemma physical_demo: "physical demo_constants"
  by (simp add: physical_def demo_constants_def)

lemma ProbeE_demo: "ProbeE (demo_probe E y bits) = E"
  by (simp add: ProbeE_def demo_probe_def)

lemma midpoint_rule_samples: "samples_in_range midpoint_rule"
  unfolding samples_in_range_def
proof (intro allI impI)
  fix func :: GSFunc and name :: string and rng :: Range1D_t
  assume a: "fParams func 0 = Some (name, rng) \<and>
    (\<forall>t. min_t rng \<le> t \<and> t \<le> max_t rng \<longrightarrow> (\<exists>v. call func [t] = Inr v))"
  show "\<exists>v. midpoint_rule func = Inr v"
  proof (cases "max_t rng < min_t rng")
    case True
    then show ?thesis using a by (simp add: midpoint_rule_def)
  next
    case False
    then have "min_t rng \<le> (min_t rng + max_t rng) / 2 \<and> (min_t rng + max_t rng) / 2 \<le> max_t rng"
      by simp
    then obtain v where "call func [(min_t rng + max_t rng) / 2] = Inr v"
      using a by blast
    then show ?thesis using a False by (simp add: midpoint_rule_def)
  qed
qed

lemma window_demo:
  "ymin_of demo_constants 30000 = 40001 / 60000"
  "ymax_of demo_constants 30000 = 99999 / 100000"
  by (simp_all add: ymin_of_def ymax_of_def r_of_def re_of_def demo_constants_def)

section \<open>The cross section: forbidden kinematics, singular points, configuration\<close>

text \<open>
  C4. \<open>XSec\<close> returns exactly 0, and no fault, whenever \<open>ValidProcess\<close> or
  \<open>ValidKinematics\<close> is false; whenever the probe energy is below the threshold and the
  kinematic check is not skipped; for physical constants and a probe energy that is
  positive (which it is whenever the kinematic check is not skipped and passes),
  whenever the energy is below the threshold or the inelasticity is outside the allowed
  window \<open>[ymin, ymax]\<close>; and whenever the inelasticity is outside the window and the
  window is computed without a division by zero.
\<close>
theorem XSec_forbidden_is_zero:
  "(\<not> ValidProcess interaction \<or> \<not> ValidKinematics c interaction
      \<longrightarrow> XSec this c interaction = Inr 0) \<and>
   (\<not> TestBit interaction kISkipKinematicChk \<and> below_threshold c interaction
      \<longrightarrow> XSec this c interaction = Inr 0) \<and>
   (physical c \<and>
    (0 < ProbeE interaction \<or> \<not> TestBit interaction kISkipKinematicChk) \<and>
    (below_threshold c interaction \<or> \<not> y_allowed c interaction)
      \<longrightarrow> XSec this c interaction = Inr 0) \<and>
   (ProbeE interaction \<noteq> 0 \<and> kElectronMass_2 c \<noteq> 0 \<and>
    1 + re_of c (ProbeE interaction) \<noteq> 0 \<and> \<not> y_allowed c interaction
      \<longrightarrow> XSec this c interaction = Inr 0)"
proof (intro conjI impI)
  assume "\<not> ValidProcess interaction \<or> \<not> ValidKinematics c interaction"
  then show "XSec this c interaction = Inr 0"
    by (auto simp: XSec_def)
next
  assume "\<not> TestBit interaction kISkipKinematicChk \<and> below_threshold c interaction"
  then have "\<not> ValidKinematics c interaction" by (simp add: ValidKinematics_iff)
  then show "XSec this c interaction = Inr 0"
    by (simp add: XSec_def)
next
  assume a: "physical c \<and>
    (0 < ProbeE interaction \<or> \<not> TestBit interaction kISkipKinematicChk) \<and>
    (below_threshold c interaction \<or> \<not> y_allowed c interaction)"
  show "XSec this c interaction = Inr 0"
  proof (cases "ValidKinematics c interaction")
    case True
    then have pos: "0 < ProbeE interaction"
      using a probe_positive by blast
    then have "\<not> y_allowed c interaction"
      using a window_empty_below_threshold by blast
    then show ?thesis using XSec_window [of c interaction this] a pos True by simp
  next
    case False
    then show ?thesis by (simp add: XSec_def)
  qed
next
  assume a: "ProbeE interaction \<noteq> 0 \<and> kElectronMass_2 c \<noteq> 0 \<and>
    1 + re_of c (ProbeE interaction) \<noteq> 0 \<and> \<not> y_allowed c interaction"
  show "XSec this c interaction = Inr 0"
  proof (cases "ValidKinematics c interaction")
    case True
    then show ?thesis using XSec_window_finite [of interaction c this] a by simp
  next
    case False
    then show ?thesis by (simp add: XSec_def)
  qed
qed

theorem XSec_forbidden_is_zero_witness:
  "\<not> ValidKinematics demo_constants (demo_probe 100 (1 / 2) {}) \<and>
   \<not> TestBit (demo_probe 100 (1 / 2) {}) kISkipKinematicChk \<and>
   below_threshold demo_constants (demo_probe 100 (1 / 2) {}) \<and>
   XSec \<lparr>fIntegrator = None\<rparr> demo_constants (demo_probe 100 (1 / 2) {}) = Inr 0 \<and>
   physical demo_constants \<and>
   0 < ProbeE (demo_probe 100 (1 / 2) {kISkipKinematicChk}) \<and>
   ValidKinematics demo_constants (demo_probe 100 (1 / 2) {kISkipKinematicChk}) \<and>
   below_threshold demo_constants (demo_probe 100 (1 / 2) {kISkipKinematicChk}) \<and>
   XSec \<lparr>fIntegrator = None\<rparr> demo_constants (demo_probe 100 (1 / 2) {kISkipKinematicChk}) = Inr 0 \<and>
   0 < ProbeE (demo_probe 30000 (1 / 2) {}) \<and>
   ValidKinematics demo_constants (demo_probe 30000 (1 / 2) {}) \<and>
   kElectronMass_2 demo_constants \<noteq> 0 \<and>
   1 + re_of demo_constants (ProbeE (demo_probe 30000 (1 / 2) {})) \<noteq> 0 \<and>
   \<not> y_allowed demo_constants (demo_probe 30000 (1 / 2) {}) \<and>
   XSec \<lparr>fIntegrator = None\<rparr> demo_constants (demo_probe 30000 (1 / 2) {}) = Inr 0"
proof -
  let ?alg = "\<lparr>fIntegrator = None\<rparr>"
  have b: "\<And>bits. below_threshold demo_constants (demo_probe 100 (1 / 2) bits)"
    by (simp add: below_threshold_def ProbeE_demo demo_constants_def)
  have nb: "\<not> below_threshold demo_constants (demo_probe 30000 (1 / 2) {})"
    by (simp add: below_threshold_def ProbeE_demo demo_constants_def)
  have s: "\<not> TestBit (demo_probe 100 (1 / 2) {}) kISkipKinematicChk"
    "TestBit (demo_probe 100 (1 / 2) {kISkipKinematicChk}) kISkipKinematicChk"
    by (simp_all add: TestBit_def demo_probe_def)
  have y: "\<not> y_allowed demo_constants (demo_probe 30000 (1 / 2) {})"
    by (simp add: y_allowed_def ProbeE_demo window_demo) (simp add: demo_probe_def)
  have 1: "XSec ?alg demo_constants (demo_probe 100 (1 / 2) {}) = Inr 0"
    using XSec_forbidden_is_zero [of "demo_probe 100 (1 / 2) {}" demo_constants ?alg] s b
    by (simp add: ValidKinematics_iff)
  have 2: "XSec ?alg demo_constants (demo_probe 100 (1 / 2) {kISkipKinematicChk}) = Inr 0"
    using XSec_forbidden_is_zero [of "demo_probe 100 (1 / 2) {kISkipKinematicChk}" demo_constants ?alg]
      b physical_demo
    by (simp add: ProbeE_demo)
  have 3: "XSec ?alg demo_constants (demo_probe 30000 (1 / 2) {}) = Inr 0"
    using XSec_forbidden_is_zero [of "demo_probe 30000 (1 / 2) {}" demo_constants ?alg]
      y physical_demo
    by (simp add: ProbeE_demo)
  have f: "kElectronMass_2 demo_constants \<noteq> 0"
    "1 + re_of demo_constants (ProbeE (demo_probe 30000 (1 / 2) {})) \<noteq> 0"
    by (simp_all add: demo_constants_def re_of_def ProbeE_demo)
  show ?thesis
    using 1 2 3 b nb s y f physical_demo by (simp add: ValidKinematics_iff ProbeE_demo)
qed

text \<open>
  C7. The integrand has a value for every \<open>t\<close> and \<open>z\<close>: it is 0 when \<open>t = 0\<close> or
  \<open>t z \<ge> 1\<close>, and otherwise the divisor \<open>t\<close> is not zero and the argument
  \<open>1 - z t\<close> of the logarithm is positive. \<open>Li2\<close> hands the integrator that integrand
  with the range \<open>[1/100, 1 - 1/100]\<close>. Inside the allowed window \<open>y\<close> is at most
  \<open>1 - 1/100000\<close>, so that \<open>1 - y\<close> is positive and every quotient, power and logarithm
  of \<open>Fa\<close> has a value. Hence, with physical constants, a positive probe energy (or the
  kinematic check not skipped) and an integrator that returns a value for every function
  that has one on its range, \<open>XSec\<close> returns a value and never a fault.
\<close>
theorem no_singular_evaluation:
  "BardinIMDRadCorIntegrand_call z (t # rest) =
     Inr (if t = 0 \<or> 1 \<le> t * z then 0 else ln (1 - z * t) / t) \<and>
   (t \<noteq> 0 \<and> t * z < 1 \<longrightarrow> 0 < 1 - z * t) \<and>
   (fIntegrator this = Some integrator \<longrightarrow>
      Li2 this z = integrator (SetParam 0 ''t'' \<lparr>min_t = 1 / 100, max_t = 1 - 1 / 100\<rparr>
                                 (BardinIMDRadCorIntegrand z))) \<and>
   (physical c \<and> 0 < ProbeE interaction \<and> y_allowed c interaction \<longrightarrow>
      1 - GetKinematics_y interaction \<le> 1 - 1 / 100000 \<and>
      0 < 1 - (1 - GetKinematics_y interaction) \<and>
      Fa_finite (re_of c (ProbeE interaction)) (r_of c (ProbeE interaction))
        (1 - GetKinematics_y interaction)) \<and>
   (physical c \<and>
    (0 < ProbeE interaction \<or> \<not> TestBit interaction kISkipKinematicChk) \<and>
    fIntegrator this = Some integrator \<and> samples_in_range integrator \<longrightarrow>
      (\<exists>v. XSec this c interaction = Inr v))"
proof (intro conjI impI)
  show "BardinIMDRadCorIntegrand_call z (t # rest) =
     Inr (if t = 0 \<or> 1 \<le> t * z then 0 else ln (1 - z * t) / t)"
    by (rule integrand_value)
  show "0 < 1 - z * t" if "t \<noteq> 0 \<and> t * z < 1"
    using that by (simp add: mult.commute)
  show "Li2 this z = integrator (SetParam 0 ''t'' \<lparr>min_t = 1 / 100, max_t = 1 - 1 / 100\<rparr>
                                 (BardinIMDRadCorIntegrand z))"
    if "fIntegrator this = Some integrator"
    by (rule Li2_bound [OF that])
next
  assume a: "physical c \<and> 0 < ProbeE interaction \<and> y_allowed c interaction"
  then show "1 - GetKinematics_y interaction \<le> 1 - 1 / 100000"
    by (simp add: y_allowed_def ymax_of_def)
  then show "0 < 1 - (1 - GetKinematics_y interaction)" by simp
  show "Fa_finite (re_of c (ProbeE interaction)) (r_of c (ProbeE interaction))
        (1 - GetKinematics_y interaction)"
    using Fa_finite_window a by blast
next
  assume a: "physical c \<and>
    (0 < ProbeE interaction \<or> \<not> TestBit interaction kISkipKinematicChk) \<and>
    fIntegrator this = Some integrator \<and> samples_in_range integrator"
  show "\<exists>v. XSec this c interaction = Inr v"
  proof (cases "ValidKinematics c interaction")
    case False
    then show ?thesis by (simp add: XSec_def)
  next
    case True
    then have pos: "0 < ProbeE interaction"
      using a probe_positive by blast
    note w = XSec_window [of c interaction this]
    show ?thesis
    proof (cases "y_allowed c interaction")
      case False
      then show ?thesis using w a pos True by simp
    next
      case allowed: True
      have "\<And>z. \<exists>v. Li2 this z = Inr v" using Li2_value a by blast
      then obtain fa where fa: "Fa this (re_of c (ProbeE interaction)) (r_of c (ProbeE interaction))
          (1 - GetKinematics_y interaction) = Inr fa"
        using Fa_value [OF Fa_finite_window] a pos allowed by blast
      show ?thesis
        using w a pos True allowed fa by (simp add: Let_def)
    qed
  qed
qed

theorem no_singular_evaluation_witness:
  "physical demo_constants \<and>
   0 < ProbeE (demo_probe 30000 (1 / 5) {}) \<and>
   y_allowed demo_constants (demo_probe 30000 (1 / 5) {}) \<and>
   fIntegrator \<lparr>fIntegrator = Some midpoint_rule\<rparr> = Some midpoint_rule \<and>
   samples_in_range midpoint_rule \<and>
   BardinIMDRadCorIntegrand_call 2 [1 / 2] = Inr 0 \<and>
   BardinIMDRadCorIntegrand_call 1 [1 / 2] = Inr (ln (1 / 2) / (1 / 2)) \<and>
   Fa_finite (re_of demo_constants 30000) (r_of demo_constants 30000) (4 / 5) \<and>
   (\<exists>v. XSec \<lparr>fIntegrator = Some midpoint_rule\<rparr> demo_constants
          (demo_probe 30000 (1 / 5) {}) = Inr v)"
proof -
  let ?i = "demo_probe 30000 (1 / 5) {}" and ?alg = "\<lparr>fIntegrator = Some midpoint_rule\<rparr>"
  have y: "y_allowed demo_constants ?i"
    by (simp add: y_allowed_def ProbeE_demo window_demo) (simp add: demo_probe_def)
  have k: "GetKinematics_y ?i = 1 / 5" by (simp add: demo_probe_def)
  note t = no_singular_evaluation [of _ _ _ ?alg midpoint_rule demo_constants ?i]
  have "BardinIMDRadCorIntegrand_call 2 [1 / 2] = Inr 0"
    using no_singular_evaluation [of 2 "1 / 2" "[]" ?alg midpoint_rule demo_constants ?i] by simp
  moreover have "BardinIMDRadCorIntegrand_call 1 [1 / 2] = Inr (ln (1 / 2) / (1 / 2))"
    using no_singular_evaluation [of 1 "1 / 2" "[]" ?alg midpoint_rule demo_constants ?i] by simp
  moreover have "Fa_finite (re_of demo_constants 30000) (r_of demo_constants 30000) (4 / 5)"
    using t [of 0 0 "[]"] physical_demo y by (simp add: ProbeE_demo k)
  moreover have "\<exists>v. XSec ?alg demo_constants ?i = Inr v"
    using t [of 0 0 "[]"] physical_demo midpoint_rule_samples by (simp add: ProbeE_demo)
  ultimately show ?thesis
    using physical_demo y midpoint_rule_samples by (simp add: ProbeE_demo)
qed

text \<open>
  C9. \<open>Configure\<close> fails with the assertion exactly when the two keys resolve to no
  integrator (to nothing, or to an algorithm of another kind); it fails in no other way;
  and when it succeeds the integrator it resolved is bound in the configured object, so
  that \<open>Li2\<close> calls that integrator.
\<close>
theorem Configure_needs_integrator:
  "(Configure SubAlg this = Inl AssertionFailed \<longleftrightarrow>
      dynamic_cast_IntegratorI (SubAlg ''integrator-alg-name'' ''integrator-param-set'') = None) \<and>
   (dynamic_cast_IntegratorI (SubAlg ''integrator-alg-name'' ''integrator-param-set'') = None
      \<longleftrightarrow> (\<forall>integrator. SubAlg ''integrator-alg-name'' ''integrator-param-set''
                          \<noteq> Some (Integrator integrator))) \<and>
   (\<forall>this'. Configure SubAlg this = Inr this' \<longrightarrow>
      (\<exists>integrator.
         SubAlg ''integrator-alg-name'' ''integrator-param-set'' = Some (Integrator integrator) \<and>
         fIntegrator this' = Some integrator \<and>
         (\<forall>z. Li2 this' z =
            integrator (SetParam 0 ''t'' \<lparr>min_t = 1 / 100, max_t = 1 - 1 / 100\<rparr>
                          (BardinIMDRadCorIntegrand z))))) \<and>
   (\<forall>e. Configure SubAlg this = Inl e \<longrightarrow> e = AssertionFailed)"
proof -
  let ?alg = "SubAlg ''integrator-alg-name'' ''integrator-param-set''"
  have cast: "dynamic_cast_IntegratorI ?alg = None \<longleftrightarrow>
      (\<forall>integrator. ?alg \<noteq> Some (Integrator integrator))"
    by (auto simp: dynamic_cast_IntegratorI_def split: option.splits Algorithm.splits)
  have conf: "Configure SubAlg this =
      (case dynamic_cast_IntegratorI ?alg of
         None \<Rightarrow> Inl AssertionFailed
       | Some integrator \<Rightarrow> Inr (this\<lparr>fIntegrator := Some integrator\<rparr>))"
    by (simp add: Configure_def LoadSubAlg_def Let_def split: option.splits)
  have some: "dynamic_cast_IntegratorI ?alg = Some integrator \<longleftrightarrow> ?alg = Some (Integrator integrator)"
    for integrator
    by (auto simp: dynamic_cast_IntegratorI_def split: option.splits Algorithm.splits)
  have ok: "\<exists>integrator. ?alg = Some (Integrator integrator) \<and>
         fIntegrator this' = Some integrator \<and>
         (\<forall>z. Li2 this' z =
            integrator (SetParam 0 ''t'' \<lparr>min_t = 1 / 100, max_t = 1 - 1 / 100\<rparr>
                          (BardinIMDRadCorIntegrand z)))"
    if "Configure SubAlg this = Inr this'" for this'
  proof -
    from that obtain integrator where i: "dynamic_cast_IntegratorI ?alg = Some integrator"
      and t: "this' = this\<lparr>fIntegrator := Some integrator\<rparr>"
      unfolding conf by (auto split: option.splits)
    have "fIntegrator this' = Some integrator" by (simp add: t)
    then show ?thesis
      using i some Li2_bound by blast
  qed
  have "Configure SubAlg this = Inl AssertionFailed \<longleftrightarrow> dynamic_cast_IntegratorI ?alg = None"
    unfolding conf by (simp split: option.splits)
  moreover have "\<forall>e. Configure SubAlg this = Inl e \<longrightarrow> e = AssertionFailed"
    unfolding conf by (auto split: option.splits)
  ultimately show ?thesis
    using cast ok by blast
qed

theorem Configure_needs_integrator_witness:
  "Configure (demo_registry None) \<lparr>fIntegrator = None\<rparr> = Inl AssertionFailed \<and>
   Configure (demo_registry (Some (OtherAlgorithm ''genie::RESXSec''))) \<lparr>fIntegrator = None\<rparr>
     = Inl AssertionFailed \<and>
   Configure (demo_registry (Some (Integrator midpoint_rule))) \<lparr>fIntegrator = None\<rparr>
     = Inr \<lparr>fIntegrator = Some midpoint_rule\<rparr> \<and>
   Li2 \<lparr>fIntegrator = Some midpoint_rule\<rparr> 0 = Inr 0"
proof -
  let ?none = "\<lparr>fIntegrator = None\<rparr>"
  have 1: "Configure (demo_registry None) ?none = Inl AssertionFailed"
    using Configure_needs_integrator [of "demo_registry None" ?none]
    by (simp add: demo_registry_def dynamic_cast_IntegratorI_def)
  have 2: "Configure (demo_registry (Some (OtherAlgorithm ''genie::RESXSec''))) ?none
      = Inl AssertionFailed"
    using Configure_needs_integrator [of "demo_registry (Some (OtherAlgorithm ''genie::RESXSec''))" ?none]
    by (simp add: demo_registry_def dynamic_cast_IntegratorI_def)
  have 3: "Configure (demo_registry (Some (Integrator midpoint_rule))) ?none
      = Inr \<lparr>fIntegrator = Some midpoint_rule\<rparr>"
    by (simp add: Configure_def LoadSubAlg_def demo_registry_def dynamic_cast_IntegratorI_def)
  have "Li2 \<lparr>fIntegrator = Some midpoint_rule\<rparr> 0 =
      midpoint_rule (SetParam 0 ''t'' \<lparr>min_t = 1 / 100, max_t = 1 - 1 / 100\<rparr>
                          (BardinIMDRadCorIntegrand 0))"
    using Configure_needs_integrator [of "demo_registry (Some (Integrator midpoint_rule))" ?none] 3
    by auto
  then have 4: "Li2 \<lparr>fIntegrator = Some midpoint_rule\<rparr> 0 = Inr 0"
    by (simp add: midpoint_rule_def SetParam_def BardinIMDRadCorIntegrand_def
        BardinIMDRadCorIntegrand_call_def)
  show ?thesis using 1 2 3 4 by simp
qed

section \<open>PhysInteractionSelector\<close>

text \<open>
  Modelled from the spec: an entry of the Interaction Generator Map. The generator gives
  the candidate interaction for a probe; the weight of the channel is either recomputed
  by the channel's cross-section integrator or read from a precomputed tabulation.
\<close>

record Generator =
  interaction_for :: "TLorentzVector \<Rightarrow> Interaction"
  integrated_xsec :: "Interaction \<Rightarrow> real"
  tabulated_xsec :: "TLorentzVector \<Rightarrow> real"

text \<open>
  Modelled from the spec: the Interaction Generator Map in its iteration order and the
  Weight Table, an ordered sequence of channel identifiers with their weights.
\<close>

type_synonym 'c InteractionGeneratorMap = "('c \<times> Generator) list"

type_synonym 'c WeightTable = "('c \<times> real) list"

text \<open>
  Modelled from the spec: the Selected Event Seed, the chosen interaction with the
  channel identifier and the probe four-momentum.
\<close>

record 'c EventSeed =
  seed_channel :: 'c
  seed_interaction :: Interaction
  seed_probe :: TLorentzVector

text \<open>
  Modelled from the spec: the states of the selector,
  \<open>Idle \<rightarrow> WeightsComputed \<rightarrow> Selected | Failed\<close>.
\<close>

datatype 'c SelectorState =
  Idle | WeightsComputed "'c WeightTable" | Selected "'c EventSeed" | Failed

text \<open>
  Modelled from the spec: step 1 of the algorithm, the weight of every channel in the
  order of the map, taken from the tabulation when the flag \<open>fUseSplines\<close> is set.
\<close>

definition compute_weights ::
  "bool \<Rightarrow> 'c InteractionGeneratorMap \<Rightarrow> TLorentzVector \<Rightarrow> 'c WeightTable" where
  "compute_weights fUseSplines igmp p4 =
     map (\<lambda>(c, g). (c, if fUseSplines then tabulated_xsec g p4
                        else integrated_xsec g (interaction_for g p4))) igmp"

text \<open>
  Modelled from the spec: step 2, the cumulative sequence \<open>W_i = W_{i-1} + w(c_i)\<close>
  started from \<open>W_0 = 0\<close>, and its last value.
\<close>

fun cumulative :: "real \<Rightarrow> real list \<Rightarrow> real list" where
  "cumulative W [] = []"
| "cumulative W (w # ws) = (W + w) # cumulative (W + w) ws"

definition W_last :: "'c WeightTable \<Rightarrow> real" where
  "W_last table = last (0 # cumulative 0 (map snd table))"

text \<open>
  Modelled from the spec: step 4, the smallest \<open>i\<close> with \<open>u < W_i\<close>. The spec draws
  \<open>u\<close> below \<open>W_last\<close>, so that such an \<open>i\<close> exists; \<open>None\<close> is the answer for any
  other \<open>u\<close>.
\<close>

fun first_bucket :: "real \<Rightarrow> nat \<Rightarrow> real list \<Rightarrow> nat option" where
  "first_bucket u i [] = None"
| "first_bucket u i (W # Ws) = (if u < W then Some i else first_bucket u (Suc i) Ws)"

definition select_channel :: "real \<Rightarrow> 'c WeightTable \<Rightarrow> nat option" where
  "select_channel u table = first_bucket u 0 (cumulative 0 (map snd table))"

text \<open>
  Modelled from the spec: one transition of the selector. The random source is its
  state \<open>rnd\<close> and the function \<open>draw\<close>, which gives a value for the bound \<open>W_last\<close>
  and the next state; it is consulted once, in the transition that selects.
  \<open>Selected\<close> and \<open>Failed\<close> are terminal.
\<close>

fun selector_step ::
  "(nat \<Rightarrow> real \<Rightarrow> real \<times> nat) \<Rightarrow> bool \<Rightarrow> 'c InteractionGeneratorMap \<Rightarrow> TLorentzVector
     \<Rightarrow> 'c SelectorState \<times> nat \<Rightarrow> 'c SelectorState \<times> nat" where
  "selector_step draw fUseSplines igmp p4 (Idle, rnd) =
     (WeightsComputed (compute_weights fUseSplines igmp p4), rnd)"
| "selector_step draw fUseSplines igmp p4 (WeightsComputed table, rnd) =
     (if W_last table \<le> 0 then (Failed, rnd)
      else
        let (u, rnd') = draw rnd (W_last table) in
        case select_channel u table of
          None \<Rightarrow> (Failed, rnd')
        | Some i \<Rightarrow>
            (Selected \<lparr>seed_channel = fst (igmp ! i),
                       seed_interaction = interaction_for (snd (igmp ! i)) p4,
                       seed_probe = p4\<rparr>, rnd'))"
| "selector_step draw fUseSplines igmp p4 (Selected seed, rnd) = (Selected seed, rnd)"
| "selector_step draw fUseSplines igmp p4 (Failed, rnd) = (Failed, rnd)"

text \<open>
  Modelled from the spec: \<open>PhysInteractionSelector::SelectInteraction\<close>, of which the
  sources hold the declaration only. It runs the selector from \<open>Idle\<close> to a terminal
  state.
\<close>

definition SelectInteraction ::
  "(nat \<Rightarrow> real \<Rightarrow> real \<times> nat) \<Rightarrow> bool \<Rightarrow> 'c InteractionGeneratorMap \<Rightarrow> TLorentzVector \<Rightarrow> nat
     \<Rightarrow> 'c SelectorState \<times> nat" where
  "SelectInteraction draw fUseSplines igmp p4 rnd =
     selector_step draw fUseSplines igmp p4
       (selector_step draw fUseSplines igmp p4 (Idle, rnd))"

definition selected_channel :: "'c SelectorState \<Rightarrow> 'c option" where
  "selected_channel st = (case st of Selected seed \<Rightarrow> Some (seed_channel seed) | _ \<Rightarrow> None)"

definition event_seed :: "'c SelectorState \<Rightarrow> 'c EventSeed option" where
  "event_seed st = (case st of Selected seed \<Rightarrow> Some seed | _ \<Rightarrow> None)"

definition demo_generator :: "real \<Rightarrow> real \<Rightarrow> real \<Rightarrow> Generator" where
  "demo_generator y w_integrated w_tabulated =
     \<lparr>interaction_for = (\<lambda>p4. demo_probe (fE p4) y {}),
      integrated_xsec = (\<lambda>interaction. w_integrated),
      tabulated_xsec = (\<lambda>p4. w_tabulated)\<rparr>"

definition demo_draw :: "nat \<Rightarrow> real \<Rightarrow> real \<times> nat" where
  "demo_draw rnd W = (W * (real (rnd mod 4) / 4), Suc rnd)"

lemma first_bucket_bound:
  "first_bucket u i Ws = Some j \<Longrightarrow> i \<le> j \<and> j < i + length Ws"
  by (induction Ws arbitrary: i) (auto split: if_splits, fastforce+)

lemma length_cumulative: "length (cumulative W ws) = length ws"
  by (induction ws arbitrary: W) auto

lemma select_channel_bound:
  assumes "select_channel u table = Some i"
  shows "i < length table"
  using first_bucket_bound [of u 0 "cumulative 0 (map snd table)" i] assms
  by (simp add: select_channel_def length_cumulative)

lemma compute_weights_channel:
  assumes "i < length igmp"
  shows "fst (compute_weights f igmp p4 ! i) = fst (igmp ! i)"
  using assms by (simp add: compute_weights_def split: prod.splits)

lemma length_compute_weights: "length (compute_weights f igmp p4) = length igmp"
  by (simp add: compute_weights_def)

lemma SelectInteraction_eq:
  "SelectInteraction draw f igmp p4 rnd =
     (let table = compute_weights f igmp p4 in
      if W_last table \<le> 0 then (Failed, rnd)
      else
        let (u, rnd') = draw rnd (W_last table) in
        case select_channel u table of
          None \<Rightarrow> (Failed, rnd')
        | Some i \<Rightarrow>
            (Selected \<lparr>seed_channel = fst (igmp ! i),
                       seed_interaction = interaction_for (snd (igmp ! i)) p4,
                       seed_probe = p4\<rparr>, rnd'))"
  by (simp add: SelectInteraction_def Let_def)

text \<open>
  C5. Two runs of the selector with the same random source in the same state and with
  the same ordered weight table select the same channel and leave the random source in
  the same state, whatever the generator maps, probes and configuration flags that
  produced the table.
\<close>
theorem selection_is_deterministic:
  assumes "compute_weights f1 igmp1 p1 = compute_weights f2 igmp2 p2"
  shows "selected_channel (fst (SelectInteraction draw f1 igmp1 p1 rnd)) =
         selected_channel (fst (SelectInteraction draw f2 igmp2 p2 rnd)) \<and>
         snd (SelectInteraction draw f1 igmp1 p1 rnd) =
         snd (SelectInteraction draw f2 igmp2 p2 rnd)"
proof -
  let ?t = "compute_weights f2 igmp2 p2"
  have len: "length igmp1 = length igmp2"
    using assms length_compute_weights by metis
  have ch: "fst (igmp1 ! i) = fst (igmp2 ! i)" if "i < length igmp2" for i
    using that len assms compute_weights_channel by metis
  show ?thesis
  proof (cases "W_last ?t \<le> 0")
    case True
    then show ?thesis by (simp add: SelectInteraction_eq assms)
  next
    case False
    obtain u rnd' where d: "draw rnd (W_last ?t) = (u, rnd')" by (cases "draw rnd (W_last ?t)")
    show ?thesis
    proof (cases "select_channel u ?t")
      case None
      then show ?thesis using False d by (simp add: SelectInteraction_eq assms selected_channel_def)
    next
      case (Some i)
      then have "i < length igmp2"
        using select_channel_bound length_compute_weights by metis
      then show ?thesis
        using False d Some ch by (simp add: SelectInteraction_eq assms selected_channel_def)
    qed
  qed
qed

theorem selection_is_deterministic_witness:
  "compute_weights False [(''QEL'', demo_generator (1 / 2) 3 0), (''DIS'', demo_generator (1 / 2) 1 0)]
       \<lparr>fX = 0, fY = 0, fZ = 192, fE = 192\<rparr> =
   compute_weights True [(''QEL'', demo_generator (1 / 4) 7 3), (''DIS'', demo_generator (1 / 4) 9 1)]
       \<lparr>fX = 0, fY = 0, fZ = 64, fE = 64\<rparr> \<and>
   selected_channel (fst (SelectInteraction demo_draw False
       [(''QEL'', demo_generator (1 / 2) 3 0), (''DIS'', demo_generator (1 / 2) 1 0)]
       \<lparr>fX = 0, fY = 0, fZ = 192, fE = 192\<rparr> 3)) = Some ''DIS'' \<and>
   selected_channel (fst (SelectInteraction demo_draw True
       [(''QEL'', demo_generator (1 / 4) 7 3), (''DIS'', demo_generator (1 / 4) 9 1)]
       \<lparr>fX = 0, fY = 0, fZ = 64, fE = 64\<rparr> 3)) = Some ''DIS''"
proof -
  let ?m1 = "[(''QEL'', demo_generator (1 / 2) 3 0), (''DIS'', demo_generator (1 / 2) 1 0)]"
  let ?m2 = "[(''QEL'', demo_generator (1 / 4) 7 3), (''DIS'', demo_generator (1 / 4) 9 1)]"
  let ?p1 = "\<lparr>fX = 0, fY = 0, fZ = 192, fE = 192\<rparr>" and ?p2 = "\<lparr>fX = 0, fY = 0, fZ = 64, fE = 64\<rparr>"
  have t1: "compute_weights False ?m1 ?p1 = [(''QEL'', 3), (''DIS'', 1)]"
    by (simp add: compute_weights_def demo_generator_def)
  have t2: "compute_weights True ?m2 ?p2 = [(''QEL'', 3), (''DIS'', 1)]"
    by (simp add: compute_weights_def demo_generator_def)
  have "selected_channel (fst (SelectInteraction demo_draw False ?m1 ?p1 3)) = Some ''DIS''"
    by (simp add: SelectInteraction_eq t1 W_last_def select_channel_def demo_draw_def
        selected_channel_def)
  then show ?thesis
    using selection_is_deterministic [of False ?m1 ?p1 True ?m2 ?p2 demo_draw 3] t1 t2
    by simp
qed

text \<open>
  C6. When the last cumulative weight is at most 0, the selector ends in \<open>Failed\<close>,
  produces no event seed and does not consult the random source.
\<close>
theorem no_weight_no_event:
  assumes "W_last (compute_weights fUseSplines igmp p4) \<le> 0"
  shows "SelectInteraction draw fUseSplines igmp p4 rnd = (Failed, rnd) \<and>
         event_seed (fst (SelectInteraction draw fUseSplines igmp p4 rnd)) = None"
  using assms by (simp add: SelectInteraction_eq event_seed_def)

theorem no_weight_no_event_witness:
  "W_last (compute_weights False
      [(''QEL'', demo_generator (1 / 2) 0 0), (''DIS'', demo_generator (1 / 2) 0 0)]
      \<lparr>fX = 0, fY = 0, fZ = 192, fE = 192\<rparr>) \<le> 0 \<and>
   SelectInteraction demo_draw False
      [(''QEL'', demo_generator (1 / 2) 0 0), (''DIS'', demo_generator (1 / 2) 0 0)]
      \<lparr>fX = 0, fY = 0, fZ = 192, fE = 192\<rparr> 3 = (Failed, 3) \<and>
   W_last (compute_weights False ([] :: string InteractionGeneratorMap)
      \<lparr>fX = 0, fY = 0, fZ = 192, fE = 192\<rparr>) \<le> 0 \<and>
   SelectInteraction demo_draw False ([] :: string InteractionGeneratorMap)
      \<lparr>fX = 0, fY = 0, fZ = 192, fE = 192\<rparr> 3 = (Failed, 3)"
proof -
  let ?m = "[(''QEL'', demo_generator (1 / 2) 0 0), (''DIS'', demo_generator (1 / 2) 0 0)]"
  let ?e = "[] :: string InteractionGeneratorMap"
  let ?p = "\<lparr>fX = 0, fY = 0, fZ = 192, fE = 192\<rparr>"
  have w: "W_last (compute_weights False ?m ?p) \<le> 0"
    by (simp add: compute_weights_def demo_generator_def W_last_def)
  have e: "W_last (compute_weights False ?e ?p) \<le> 0"
    by (simp add: compute_weights_def W_last_def)
  show ?thesis
    using no_weight_no_event [OF w, of demo_draw 3] no_weight_no_event [OF e, of demo_draw 3] w e
    by simp
qed

end
